theory Spec2Isabelle
  imports Complex_Main
begin

section \<open>The leave-out polarization estimator of \<^verbatim>\<open>experiments/methods/pacte.py\<close>\<close>

text \<open>
  The development embeds \<^verbatim>\<open>get_news_token_counts\<close>, \<^verbatim>\<open>get_party_q\<close>,
  \<^verbatim>\<open>get_rho\<close>, \<^verbatim>\<open>get_token_user_counts\<close>, \<^verbatim>\<open>mutual_information\<close>,
  \<^verbatim>\<open>chi_square\<close>, \<^verbatim>\<open>calculate_polarization\<close> and \<^verbatim>\<open>get_leaveout_score\<close>.

  Conventions of the embedding.
  \<^item> A scipy sparse matrix is a record of its column count (\<^verbatim>\<open>shape[1]\<close>) and its rows as
    dense lists of Python integers; \<^verbatim>\<open>shape[0]\<close> is the number of rows.
  \<^item> The entries of a matrix are numpy \<^verbatim>\<open>int64\<close> values: every sum of entries that the code
    takes (the assembly of duplicates, \<^verbatim>\<open>sum()\<close>, \<^verbatim>\<open>sum(axis=0)\<close>, \<^verbatim>\<open>sum(axis=1)\<close>, the
    in-place subtraction of a row) wraps around in the signed 64-bit range.
  \<^item> A numpy float is either a finite real or non-finite (\<^verbatim>\<open>inf\<close> or \<^verbatim>\<open>nan\<close>, which numpy
    produces with a warning where Python itself would raise). The rounding of doubles is not
    part of the embedding: the arithmetic on finite values is exact. The properties below
    are therefore stated only of computations that perform the same operations on the same
    operands in the same order, or whose operands and results are integers small enough to
    be exact in a double; nothing is stated that rests on regrouping a sum of rounded terms.
  \<^item> A Python exception is a value \<open>Inl e\<close> of the result.
  \<^item> The private generator \<^verbatim>\<open>random.Random()\<close> is a parameter: a record of the operations
    of the library on a generator state.
\<close>

subsection \<open>Errors, floats, matrices\<close>

datatype error = AssertionError | ZeroDivisionError | ValueError | IndexError

datatype npfloat = Fin real | NonFin

fun fadd :: "npfloat \<Rightarrow> npfloat \<Rightarrow> npfloat" where
  "fadd (Fin a) (Fin b) = Fin (a + b)"
| "fadd _ _ = NonFin"

fun fsub :: "npfloat \<Rightarrow> npfloat \<Rightarrow> npfloat" where
  "fsub (Fin a) (Fin b) = Fin (a - b)"
| "fsub _ _ = NonFin"

fun fmul :: "npfloat \<Rightarrow> npfloat \<Rightarrow> npfloat" where
  "fmul (Fin a) (Fin b) = Fin (a * b)"
| "fmul _ _ = NonFin"

fun fdiv :: "npfloat \<Rightarrow> npfloat \<Rightarrow> npfloat" where
  "fdiv (Fin a) (Fin b) = (if b = 0 then NonFin else Fin (a / b))"
| "fdiv _ _ = NonFin"

fun flog2 :: "npfloat \<Rightarrow> npfloat" where
  "flog2 (Fin a) = (if 0 < a then Fin (log 2 a) else NonFin)"
| "flog2 NonFin = NonFin"

definition fsum :: "npfloat list \<Rightarrow> npfloat" where
  "fsum xs = foldl fadd (Fin 0) xs"

record csr_matrix =
  ncols :: nat
  rows :: "int list list"

definition nrows :: "csr_matrix \<Rightarrow> nat" where
  "nrows M = length (rows M)"

text \<open>
  The value that \<^verbatim>\<open>int64\<close> arithmetic gives for an integer: the representative of its
  residue modulo \<open>2^64\<close> in the range from \<open>-2^63\<close> to \<open>2^63 - 1\<close>.
\<close>

definition wrap64 :: "int \<Rightarrow> int" where
  "wrap64 x = (x + 2 ^ 63) mod 2 ^ 64 - 2 ^ 63"

definition in_int64 :: "int \<Rightarrow> bool" where
  "in_int64 x \<longleftrightarrow> - (2 ^ 63) \<le> x \<and> x < 2 ^ 63"

text \<open>A count matrix: every row has \<open>ncols\<close> entries, and no entry is negative.\<close>

definition count_matrix :: "csr_matrix \<Rightarrow> bool" where
  "count_matrix M \<longleftrightarrow> (\<forall>r \<in> set (rows M). length r = ncols M \<and> (\<forall>x \<in> set r. 0 \<le> x))"

definition no_zero_rows :: "csr_matrix \<Rightarrow> bool" where
  "no_zero_rows M \<longleftrightarrow> (\<forall>r \<in> set (rows M). \<exists>x \<in> set r. x \<noteq> 0)"

text \<open>A matrix whose row totals stay below \<open>2^63\<close>, so that no \<^verbatim>\<open>int64\<close> row sum wraps.\<close>

definition int64_row_totals :: "csr_matrix \<Rightarrow> bool" where
  "int64_row_totals M \<longleftrightarrow> (\<forall>r \<in> set (rows M). sum_list r < 2 ^ 63)"

text \<open>\<^verbatim>\<open>M.sum()\<close>, \<^verbatim>\<open>M.sum(axis=0)\<close>, \<^verbatim>\<open>M.sum(axis=1)\<close>, all in \<^verbatim>\<open>int64\<close>.\<close>

definition matrix_sum :: "csr_matrix \<Rightarrow> int" where
  "matrix_sum M = wrap64 (sum_list (map sum_list (rows M)))"

definition sum_axis0 :: "csr_matrix \<Rightarrow> int list" where
  "sum_axis0 M = map (\<lambda>j. wrap64 (sum_list (map (\<lambda>r. r ! j) (rows M)))) [0..<ncols M]"

definition sum_axis1 :: "csr_matrix \<Rightarrow> int list" where
  "sum_axis1 M = map (\<lambda>r. wrap64 (sum_list r)) (rows M)"

text \<open>Row removal, used to state what leaving a document out means.\<close>

definition remove_row :: "csr_matrix \<Rightarrow> nat \<Rightarrow> csr_matrix" where
  "remove_row M i = M\<lparr>rows := take i (rows M) @ drop (Suc i) (rows M)\<rparr>"

subsection \<open>\<^verbatim>\<open>get_news_token_counts\<close>\<close>

text \<open>
  The two nested loops append to \<^verbatim>\<open>row_idx\<close>, \<^verbatim>\<open>col_idx\<close> and \<^verbatim>\<open>data\<close>; the state of
  the loops is the triple of the three lists.
\<close>

fun doc_loop :: "nat \<Rightarrow> (nat \<times> int) list \<Rightarrow> nat list \<times> nat list \<times> int list
    \<Rightarrow> nat list \<times> nat list \<times> int list" where
  "doc_loop i [] acc = acc"
| "doc_loop i ((j, count) # doc) (row_idx, col_idx, data) =
     doc_loop i doc (row_idx @ [i], col_idx @ [j], data @ [count])"

fun corpus_loop :: "nat \<Rightarrow> (nat \<times> int) list list \<Rightarrow> nat list \<times> nat list \<times> int list
    \<Rightarrow> nat list \<times> nat list \<times> int list" where
  "corpus_loop i [] acc = acc"
| "corpus_loop i (doc # corpus) acc = corpus_loop (Suc i) corpus (doc_loop i doc acc)"

text \<open>
  \<^verbatim>\<open>sp.csr_matrix((data, (row_idx, col_idx)), shape=(m, n))\<close>: coordinate assembly, entries
  at the same position are added, in \<^verbatim>\<open>int64\<close>; an index outside the shape raises
  \<^verbatim>\<open>ValueError\<close>. (numpy stores a list of Python integers as \<^verbatim>\<open>int64\<close> when each of them is
  in that range.)
\<close>

definition coo_entry :: "int list \<Rightarrow> nat list \<Rightarrow> nat list \<Rightarrow> nat \<Rightarrow> nat \<Rightarrow> int" where
  "coo_entry data row_idx col_idx i j =
     wrap64 (sum_list (map (\<lambda>(r, c, d). if r = i \<and> c = j then d else 0)
                         (zip row_idx (zip col_idx data))))"

definition csr_from_coo :: "int list \<Rightarrow> nat list \<Rightarrow> nat list \<Rightarrow> nat \<Rightarrow> nat \<Rightarrow> error + csr_matrix" where
  "csr_from_coo data row_idx col_idx m n =
     (if (\<exists>r \<in> set row_idx. m \<le> r) \<or> (\<exists>c \<in> set col_idx. n \<le> c) then Inl ValueError
      else Inr \<lparr>ncols = n,
                rows = map (\<lambda>i. map (\<lambda>j. coo_entry data row_idx col_idx i j) [0..<n]) [0..<m]\<rparr>)"

definition get_news_token_counts :: "(nat \<times> int) list list \<Rightarrow> 'w list \<Rightarrow> error + csr_matrix" where
  "get_news_token_counts corpus idx2word =
     (case corpus_loop 0 corpus ([], [], []) of (row_idx, col_idx, data) \<Rightarrow>
        csr_from_coo data row_idx col_idx (length corpus) (length idx2word))"

text \<open>A corpus over a vocabulary of \<open>V\<close> tokens: every token id is below \<open>V\<close>.\<close>

definition valid_corpus :: "(nat \<times> int) list list \<Rightarrow> nat \<Rightarrow> bool" where
  "valid_corpus corpus V \<longleftrightarrow> (\<forall>doc \<in> set corpus. \<forall>(j, count) \<in> set doc. j < V)"

text \<open>A corpus whose counts are \<^verbatim>\<open>int64\<close> values.\<close>

definition int64_counts :: "(nat \<times> int) list list \<Rightarrow> bool" where
  "int64_counts corpus \<longleftrightarrow> (\<forall>doc \<in> set corpus. \<forall>(j, count) \<in> set doc. in_int64 count)"

subsection \<open>Party statistics\<close>

text \<open>
  \<^verbatim>\<open>get_party_q\<close>. The test \<^verbatim>\<open>if exclude_user_id:\<close> is Python truthiness: \<^verbatim>\<open>None\<close> and
  \<^verbatim>\<open>0\<close> are both false.
\<close>

fun truthy :: "nat option \<Rightarrow> bool" where
  "truthy None = False"
| "truthy (Some 0) = False"
| "truthy (Some (Suc n)) = True"

definition vec_div :: "int list \<Rightarrow> int \<Rightarrow> npfloat list" where
  "vec_div v s = map (\<lambda>x. fdiv (Fin (of_int x)) (Fin (of_int s))) v"

definition get_party_q :: "csr_matrix \<Rightarrow> nat option \<Rightarrow> error + npfloat list" where
  "get_party_q party_counts exclude_user_id =
     (let user_sum = sum_axis0 party_counts in
      if truthy exclude_user_id then
        (case exclude_user_id of
           None \<Rightarrow> Inr (vec_div user_sum (wrap64 (sum_list user_sum)))
         | Some e \<Rightarrow>
             if e < nrows party_counts then
               (let user_sum = map (\<lambda>j. wrap64 (user_sum ! j - rows party_counts ! e ! j))
                                 [0..<ncols party_counts];
                    total_sum = wrap64 (sum_list user_sum)
                in Inr (vec_div user_sum total_sum))
             else Inl IndexError)
      else Inr (vec_div user_sum (wrap64 (sum_list user_sum))))"

definition get_rho :: "npfloat list \<Rightarrow> npfloat list \<Rightarrow> npfloat list" where
  "get_rho dem_q rep_q = map (\<lambda>(d, r). fdiv r (fadd d r)) (zip dem_q rep_q)"

text \<open>
  \<^verbatim>\<open>get_token_user_counts\<close>. \<^verbatim>\<open>sp.find(M)[1]\<close> lists the column of every nonzero entry;
  \<^verbatim>\<open>Counter\<close> keeps the keys in the order of their first occurrence.
\<close>

definition row_find :: "nat \<Rightarrow> int list \<Rightarrow> nat list" where
  "row_find n r = filter (\<lambda>j. r ! j \<noteq> 0) [0..<n]"

definition find_cols :: "csr_matrix \<Rightarrow> nat list" where
  "find_cols M = concat (map (row_find (ncols M)) (rows M))"

fun counter_add :: "nat \<Rightarrow> (nat \<times> nat) list \<Rightarrow> (nat \<times> nat) list" where
  "counter_add k [] = [(k, 1)]"
| "counter_add k ((k', v) # kvs) =
     (if k = k' then (k', v + 1) # kvs else (k', v) # counter_add k kvs)"

definition Counter :: "nat list \<Rightarrow> (nat \<times> nat) list" where
  "Counter xs = fold counter_add xs []"

definition get_token_user_counts :: "csr_matrix \<Rightarrow> npfloat list" where
  "get_token_user_counts party_counts =
     (let no_tokens = ncols party_counts;
          user_t_counts = Counter (find_cols party_counts);
          party_t = replicate no_tokens (Fin 1)
      in fold (\<lambda>(k, v) party_t. party_t[k := fadd (party_t ! k) (Fin (of_nat v))])
           user_t_counts party_t)"

text \<open>The leave-out loop body: copy the vector, then decrement the tokens of row \<open>i\<close>.\<close>

definition leaveout_t :: "csr_matrix \<Rightarrow> npfloat list \<Rightarrow> nat \<Rightarrow> npfloat list" where
  "leaveout_t counts party_t i =
     (let excl_user_terms = row_find (ncols counts) (rows counts ! i)
      in fold (\<lambda>term_idx t. t[term_idx := fsub (t ! term_idx) (Fin 1)]) excl_user_terms party_t)"

definition not_t :: "int \<Rightarrow> npfloat list \<Rightarrow> npfloat list" where
  "not_t no party_t = map (\<lambda>t. fadd (fsub (Fin (of_int no)) t) (Fin 2)) party_t"

subsection \<open>Token-partisanship scores\<close>

text \<open>
  \<^verbatim>\<open>mutual_information\<close> and \<^verbatim>\<open>chi_square\<close> work elementwise on numpy arrays of one
  length; the embedding gives the value at one token and maps it over the tokens. The group
  sizes are Python integers, so \<^verbatim>\<open>1 / no_users\<close> raises \<^verbatim>\<open>ZeroDivisionError\<close> at zero,
  while the array divisions only give a non-finite float.
\<close>

definition mi_token :: "npfloat \<Rightarrow> npfloat \<Rightarrow> npfloat \<Rightarrow> npfloat \<Rightarrow> int \<Rightarrow> int \<Rightarrow> npfloat" where
  "mi_token dem_t rep_t dem_not_t rep_not_t dem_no rep_no =
     (let no_users = Fin (of_int (dem_no + rep_no));
          all_t = fadd dem_t rep_t;
          all_not_t = fadd (fsub no_users all_t) (Fin 4);
          mi_dem_t = fmul dem_t (flog2 (fmul no_users (fdiv dem_t (fmul all_t (Fin (of_int dem_no))))));
          mi_dem_not_t = fmul dem_not_t
            (flog2 (fmul no_users (fdiv dem_not_t (fmul all_not_t (Fin (of_int dem_no))))));
          mi_rep_t = fmul rep_t (flog2 (fmul no_users (fdiv rep_t (fmul all_t (Fin (of_int rep_no))))));
          mi_rep_not_t = fmul rep_not_t
            (flog2 (fmul no_users (fdiv rep_not_t (fmul all_not_t (Fin (of_int rep_no))))))
      in fmul (Fin (1 / of_int (dem_no + rep_no)))
           (fadd (fadd (fadd mi_dem_t mi_dem_not_t) mi_rep_t) mi_rep_not_t))"

definition mutual_information ::
  "npfloat list \<Rightarrow> npfloat list \<Rightarrow> npfloat list \<Rightarrow> npfloat list \<Rightarrow> int \<Rightarrow> int \<Rightarrow> error + npfloat list" where
  "mutual_information dem_t rep_t dem_not_t rep_not_t dem_no rep_no =
     (if dem_no + rep_no = 0 then Inl ZeroDivisionError
      else Inr (map (\<lambda>k. mi_token (dem_t ! k) (rep_t ! k) (dem_not_t ! k) (rep_not_t ! k) dem_no rep_no)
                  [0..<length dem_t]))"

definition chi_enum :: "npfloat \<Rightarrow> npfloat \<Rightarrow> npfloat \<Rightarrow> npfloat \<Rightarrow> int \<Rightarrow> int \<Rightarrow> npfloat" where
  "chi_enum dem_t rep_t dem_not_t rep_not_t dem_no rep_no =
     (let no_users = Fin (of_int (dem_no + rep_no));
          d = fsub (fmul dem_t rep_not_t) (fmul dem_not_t rep_t)
      in fmul no_users (fmul d d))"

definition chi_denom :: "npfloat \<Rightarrow> npfloat \<Rightarrow> npfloat \<Rightarrow> npfloat \<Rightarrow> int \<Rightarrow> int \<Rightarrow> npfloat" where
  "chi_denom dem_t rep_t dem_not_t rep_not_t dem_no rep_no =
     (let no_users = Fin (of_int (dem_no + rep_no));
          all_t = fadd dem_t rep_t;
          all_not_t = fadd (fsub no_users all_t) (Fin 4)
      in fmul (fmul (fmul all_t all_not_t) (fadd dem_t dem_not_t)) (fadd rep_t rep_not_t))"

definition chi_token :: "npfloat \<Rightarrow> npfloat \<Rightarrow> npfloat \<Rightarrow> npfloat \<Rightarrow> int \<Rightarrow> int \<Rightarrow> npfloat" where
  "chi_token dem_t rep_t dem_not_t rep_not_t dem_no rep_no =
     fdiv (chi_enum dem_t rep_t dem_not_t rep_not_t dem_no rep_no)
          (chi_denom dem_t rep_t dem_not_t rep_not_t dem_no rep_no)"

definition chi_square ::
  "npfloat list \<Rightarrow> npfloat list \<Rightarrow> npfloat list \<Rightarrow> npfloat list \<Rightarrow> int \<Rightarrow> int \<Rightarrow> error + npfloat list" where
  "chi_square dem_t rep_t dem_not_t rep_not_t dem_no rep_no =
     Inr (map (\<lambda>k. chi_token (dem_t ! k) (rep_t ! k) (dem_not_t ! k) (rep_not_t ! k) dem_no rep_no)
            [0..<length dem_t])"

subsection \<open>\<^verbatim>\<open>calculate_polarization\<close>\<close>

text \<open>
  \<^verbatim>\<open>sp.diags(1 / total).dot(counts)\<close>: every stored entry of row \<open>i\<close> is scaled by the
  reciprocal of the row's (\<^verbatim>\<open>int64\<close>) total. The product of a sparse row with a dense score vector visits
  the stored entries only.
\<close>

definition user_distr :: "csr_matrix \<Rightarrow> npfloat list list" where
  "user_distr counts =
     map (\<lambda>r. map (\<lambda>c. if c = 0 then Fin 0
                       else fmul (fdiv (Fin 1) (Fin (of_int (wrap64 (sum_list r))))) (Fin (of_int c))) r)
       (rows counts)"

definition sparse_dot :: "npfloat list \<Rightarrow> npfloat list \<Rightarrow> npfloat" where
  "sparse_dot r scores =
     fsum (map (\<lambda>(d, s). fmul d s) (filter (\<lambda>(d, s). d \<noteq> Fin 0) (zip r scores)))"

definition py_recip :: "nat \<Rightarrow> error + npfloat" where
  "py_recip n = (if n = 0 then Inl ZeroDivisionError else Inr (Fin (1 / of_nat n)))"

text \<open>The accumulation loops \<^verbatim>\<open>for i in range(no): addup += distr[i, :].dot(scores)[0, 0]\<close>.\<close>

fun addup_loop :: "(nat \<Rightarrow> error + npfloat list) \<Rightarrow> npfloat list list \<Rightarrow> nat list \<Rightarrow> npfloat
    \<Rightarrow> error + npfloat" where
  "addup_loop token_scores distr [] addup = Inr addup"
| "addup_loop token_scores distr (i # is) addup =
     (case token_scores i of
        Inl e \<Rightarrow> Inl e
      | Inr scores \<Rightarrow> addup_loop token_scores distr is (fadd addup (sparse_dot (distr ! i) scores)))"

definition func :: "string \<Rightarrow>
    npfloat list \<Rightarrow> npfloat list \<Rightarrow> npfloat list \<Rightarrow> npfloat list \<Rightarrow> int \<Rightarrow> int \<Rightarrow> error + npfloat list" where
  "func measure' = (if measure' = ''mutual_information'' then mutual_information else chi_square)"

text \<open>
  The token scores. Without leave-out (lines 700 to 705) one pair
  \<^verbatim>\<open>(token_scores_dem, token_scores_rep)\<close> serves all documents. With leave-out the scores are
  computed again for every document: lines 716 to 725 for document \<open>i\<close> of the first group,
  lines 728 to 737 for document \<open>i\<close> of the second.
\<close>

definition token_scores_no_leaveout :: "string \<Rightarrow> npfloat list \<Rightarrow> npfloat list \<Rightarrow> npfloat list
    \<Rightarrow> npfloat list \<Rightarrow> npfloat list \<Rightarrow> npfloat list \<Rightarrow> nat \<Rightarrow> nat
    \<Rightarrow> error + (npfloat list \<times> npfloat list)" where
  "token_scores_no_leaveout measure' dem_q rep_q dem_t rep_t dem_not_t rep_not_t dem_no rep_no =
     (if measure' = ''posterior''
      then (let token_scores_rep = get_rho dem_q rep_q
            in Inr (map (fsub (Fin 1)) token_scores_rep, token_scores_rep))
      else (case func measure' dem_t rep_t dem_not_t rep_not_t (int dem_no) (int rep_no) of
              Inl e \<Rightarrow> Inl e
            | Inr token_scores_dem \<Rightarrow> Inr (token_scores_dem, token_scores_dem)))"

definition token_scores_dem_leaveout :: "string \<Rightarrow> csr_matrix \<Rightarrow> npfloat list \<Rightarrow> npfloat list
    \<Rightarrow> npfloat list \<Rightarrow> npfloat list \<Rightarrow> int \<Rightarrow> nat \<Rightarrow> nat \<Rightarrow> error + npfloat list" where
  "token_scores_dem_leaveout measure' dem_counts rep_q dem_t rep_t rep_not_t dem_leaveout_no rep_no i =
     (if measure' = ''posterior'' then
        (case get_party_q dem_counts (Some i) of
           Inl e \<Rightarrow> Inl e
         | Inr dem_leaveout_q \<Rightarrow> Inr (map (fsub (Fin 1)) (get_rho dem_leaveout_q rep_q)))
      else
        (let dem_leaveout_t = leaveout_t dem_counts dem_t i;
             dem_leaveout_not_t = not_t dem_leaveout_no dem_leaveout_t
         in func measure' dem_leaveout_t rep_t dem_leaveout_not_t rep_not_t
              dem_leaveout_no (int rep_no)))"

definition token_scores_rep_leaveout :: "string \<Rightarrow> csr_matrix \<Rightarrow> npfloat list \<Rightarrow> npfloat list
    \<Rightarrow> npfloat list \<Rightarrow> npfloat list \<Rightarrow> nat \<Rightarrow> int \<Rightarrow> nat \<Rightarrow> error + npfloat list" where
  "token_scores_rep_leaveout measure' rep_counts dem_q dem_t rep_t dem_not_t dem_no rep_leaveout_no i =
     (if measure' = ''posterior'' then
        (case get_party_q rep_counts (Some i) of
           Inl e \<Rightarrow> Inl e
         | Inr rep_leaveout_q \<Rightarrow> Inr (get_rho dem_q rep_leaveout_q))
      else
        (let rep_leaveout_t = leaveout_t rep_counts rep_t i;
             rep_leaveout_not_t = not_t rep_leaveout_no rep_leaveout_t
         in func measure' dem_t rep_leaveout_t dem_not_t rep_leaveout_not_t
              (int dem_no) rep_leaveout_no))"

text \<open>
  The result is the pair of the lines printed and the value returned (\<open>None\<close> is Python's
  \<^verbatim>\<open>None\<close>). Both matrices are over one vocabulary.
\<close>

definition calculate_polarization ::
  "csr_matrix \<Rightarrow> csr_matrix \<Rightarrow> string \<Rightarrow> bool \<Rightarrow> error + (string list \<times> npfloat option)" where
  "calculate_polarization dem_counts rep_counts measure' leaveout =
     (let dem_user_total = sum_axis1 dem_counts;
          rep_user_total = sum_axis1 rep_counts;
          dem_user_distr = user_distr dem_counts;
          rep_user_distr = user_distr rep_counts;
          dem_no = nrows dem_counts;
          rep_no = nrows rep_counts
      in
      if \<exists>s \<in> set dem_user_total. s = 0 then Inl AssertionError
      else if \<exists>s \<in> set rep_user_total. s = 0 then Inl AssertionError
      else if measure' \<notin> set [''posterior'', ''mutual_information'', ''chi_square'']
        then Inr ([''invalid method''], None)
      else
      case get_party_q dem_counts None of Inl e \<Rightarrow> Inl e | Inr dem_q \<Rightarrow>
      case get_party_q rep_counts None of Inl e \<Rightarrow> Inl e | Inr rep_q \<Rightarrow>
      let dem_t = get_token_user_counts dem_counts;
          rep_t = get_token_user_counts rep_counts;
          dem_not_t = not_t (int dem_no) dem_t;
          rep_not_t = not_t (int rep_no) rep_t
      in
      if \<not> leaveout then
        (case token_scores_no_leaveout measure' dem_q rep_q dem_t rep_t dem_not_t rep_not_t dem_no rep_no
         of Inl e \<Rightarrow> Inl e
          | Inr (token_scores_dem, token_scores_rep) \<Rightarrow>
        case py_recip dem_no of Inl e \<Rightarrow> Inl e | Inr dem_recip \<Rightarrow>
        let dem_val = fmul dem_recip (fsum (map (\<lambda>r. sparse_dot r token_scores_dem) dem_user_distr)) in
        case py_recip rep_no of Inl e \<Rightarrow> Inl e | Inr rep_recip \<Rightarrow>
        let rep_val = fmul rep_recip (fsum (map (\<lambda>r. sparse_dot r token_scores_rep) rep_user_distr))
        in Inr ([], Some (fmul (Fin (1 / 2)) (fadd dem_val rep_val))))
      else
      let dem_leaveout_no = int dem_no - 1;
          rep_leaveout_no = int rep_no - 1
      in
      case addup_loop
             (token_scores_dem_leaveout measure' dem_counts rep_q dem_t rep_t rep_not_t
                dem_leaveout_no rep_no)
             dem_user_distr [0..<dem_no] (Fin 0)
      of Inl e \<Rightarrow> Inl e | Inr dem_addup \<Rightarrow>
      case addup_loop
             (token_scores_rep_leaveout measure' rep_counts dem_q dem_t rep_t dem_not_t
                dem_no rep_leaveout_no)
             rep_user_distr [0..<rep_no] (Fin 0)
      of Inl e \<Rightarrow> Inl e | Inr rep_addup \<Rightarrow>
      case py_recip rep_no of Inl e \<Rightarrow> Inl e | Inr rep_recip \<Rightarrow>
      let rep_val = fmul rep_recip rep_addup in
      case py_recip dem_no of Inl e \<Rightarrow> Inl e | Inr dem_recip \<Rightarrow>
      let dem_val = fmul dem_recip dem_addup
      in Inr ([], Some (fmul (Fin (1 / 2)) (fadd dem_val rep_val))))"

subsection \<open>\<^verbatim>\<open>get_leaveout_score\<close>\<close>

text \<open>
  The operations of Python's \<^verbatim>\<open>random.Random\<close> on a generator state \<open>'g\<close>:
  \<^verbatim>\<open>seed(a)\<close>, \<^verbatim>\<open>sample(range(n), k)\<close> and \<^verbatim>\<open>shuffle\<close> of an index array.
\<close>

record 'g rng_ops =
  rng_seed :: "'g \<Rightarrow> int \<Rightarrow> 'g"
  rng_sample :: "'g \<Rightarrow> nat \<Rightarrow> nat \<Rightarrow> nat list \<times> 'g"
  rng_shuffle :: "'g \<Rightarrow> nat list \<Rightarrow> nat list \<times> 'g"

text \<open>Seeding replaces the whole state of the generator.\<close>

definition seed_resets :: "'g rng_ops \<Rightarrow> bool" where
  "seed_resets rnd \<longleftrightarrow> (\<forall>g g' a. rng_seed rnd g a = rng_seed rnd g' a)"


text \<open>Indexing: \<^verbatim>\<open>M[idx, :]\<close>, \<^verbatim>\<open>M[mask, :]\<close>, \<^verbatim>\<open>M[:, mask]\<close>, \<^verbatim>\<open>M[:k]\<close>, \<^verbatim>\<open>M[k:]\<close>, \<^verbatim>\<open>sp.vstack\<close>.\<close>

definition select_rows :: "csr_matrix \<Rightarrow> nat list \<Rightarrow> error + csr_matrix" where
  "select_rows M idx =
     (if \<exists>i \<in> set idx. nrows M \<le> i then Inl IndexError
      else Inr (M\<lparr>rows := map (\<lambda>i. rows M ! i) idx\<rparr>))"

definition mask_rows :: "csr_matrix \<Rightarrow> bool list \<Rightarrow> csr_matrix" where
  "mask_rows M msk = M\<lparr>rows := map (\<lambda>i. rows M ! i) (filter (\<lambda>i. msk ! i) [0..<nrows M])\<rparr>"

definition mask_cols :: "csr_matrix \<Rightarrow> bool list \<Rightarrow> csr_matrix" where
  "mask_cols M msk =
     (let keep = filter (\<lambda>j. msk ! j) [0..<ncols M]
      in \<lparr>ncols = length keep, rows = map (\<lambda>r. map (\<lambda>j. r ! j) keep) (rows M)\<rparr>)"

definition rows_to :: "csr_matrix \<Rightarrow> nat \<Rightarrow> csr_matrix" where
  "rows_to M k = M\<lparr>rows := take k (rows M)\<rparr>"

definition rows_from :: "csr_matrix \<Rightarrow> nat \<Rightarrow> csr_matrix" where
  "rows_from M k = M\<lparr>rows := drop k (rows M)\<rparr>"

definition vstack :: "csr_matrix \<Rightarrow> csr_matrix \<Rightarrow> csr_matrix" where
  "vstack A B = \<lparr>ncols = ncols A, rows = rows A @ rows B\<rparr>"

text \<open>\<^verbatim>\<open>M.nonzero()[0]\<close>: the row of every nonzero entry.\<close>

definition find_rows :: "csr_matrix \<Rightarrow> nat list" where
  "find_rows M = concat (map (\<lambda>i. map (\<lambda>j. i) (row_find (ncols M) (rows M ! i))) [0..<nrows M])"

text \<open>Lines 768 to 771: the cap on the number of documents of one group.\<close>

definition truncate_docs :: "int \<Rightarrow> csr_matrix \<Rightarrow> csr_matrix" where
  "truncate_docs max_docs counts =
     (let user_len = nrows counts
      in if max_docs < int user_len then rows_to counts user_len else counts)"

text \<open>Lines 777 to 787: the larger group is sampled down, then the sizes are asserted equal.\<close>

definition subsample :: "'g rng_ops \<Rightarrow> 'g \<Rightarrow> csr_matrix \<Rightarrow> csr_matrix
    \<Rightarrow> error + (csr_matrix \<times> csr_matrix \<times> 'g)" where
  "subsample rnd RNG dem_counts rep_counts =
     (let dem_user_len = nrows dem_counts;
          rep_user_len = nrows rep_counts
      in
      case (if dem_user_len > rep_user_len then
              (case rng_sample rnd RNG dem_user_len rep_user_len of (dem_subset, RNG1) \<Rightarrow>
                 (case select_rows dem_counts dem_subset of
                    Inl e \<Rightarrow> Inl e
                  | Inr dem1 \<Rightarrow> Inr (dem1, rep_counts, RNG1)))
            else if rep_user_len > dem_user_len then
              (case rng_sample rnd RNG rep_user_len dem_user_len of (rep_subset, RNG1) \<Rightarrow>
                 (case select_rows rep_counts rep_subset of
                    Inl e \<Rightarrow> Inl e
                  | Inr rep1 \<Rightarrow> Inr (dem_counts, rep1, RNG1)))
            else Inr (dem_counts, rep_counts, RNG))
      of Inl e \<Rightarrow> Inl e
       | Inr (dem1, rep1, RNG1) \<Rightarrow>
           if nrows dem1 = nrows rep1 then Inr (dem1, rep1, RNG1) else Inl AssertionError)"

text \<open>Lines 789 to 797: words used by fewer than two documents are dropped.\<close>

definition filter_rare_words :: "csr_matrix \<Rightarrow> csr_matrix \<Rightarrow> csr_matrix \<times> csr_matrix" where
  "filter_rare_words dem_counts rep_counts =
     (let dem_user_len = nrows dem_counts;
          all_counts = vstack dem_counts rep_counts;
          wordcounts = find_cols all_counts;
          all_counts = mask_cols all_counts
            (map (\<lambda>i. count_list wordcounts i > 1) [0..<ncols all_counts])
      in (rows_to all_counts dem_user_len, rows_from all_counts dem_user_len))"

text \<open>Lines 802 to 806: documents left without any word are dropped, in each group.\<close>

definition filter_empty_users :: "csr_matrix \<Rightarrow> csr_matrix" where
  "filter_empty_users counts =
     (let nonzero = set (find_rows counts)
      in mask_rows counts (map (\<lambda>i. i \<in> nonzero) [0..<nrows counts]))"

text \<open>
  Lines 758 to 809, everything before the estimator is called: either the fallback of the
  guard, with the number of documents, or the two matrices given to
  \<^verbatim>\<open>calculate_polarization\<close>, with \<^verbatim>\<open>dem_user_len\<close>, \<^verbatim>\<open>rep_user_len\<close> and the generator.
  \<open>ambient\<close> is the state in which \<^verbatim>\<open>random.Random()\<close> comes up (it is taken from the
  operating system); the generator of the module \<^verbatim>\<open>random\<close> itself is never read or written, so
  it is no parameter.
\<close>

datatype 'g prepared =
    Insufficient nat
  | Prepared csr_matrix csr_matrix nat nat 'g

definition prepare_counts :: "'g rng_ops \<Rightarrow> 'g \<Rightarrow> (nat \<times> int) list list \<Rightarrow> (nat \<times> int) list list
    \<Rightarrow> 'w list \<Rightarrow> int \<Rightarrow> int \<Rightarrow> error + 'g prepared" where
  "prepare_counts rnd ambient corpus1 corpus2 id2word min_docs max_docs =
     (case get_news_token_counts corpus1 id2word of Inl e \<Rightarrow> Inl e | Inr dem_counts \<Rightarrow>
      case get_news_token_counts corpus2 id2word of Inl e \<Rightarrow> Inl e | Inr rep_counts \<Rightarrow>
      let dem_user_len = nrows dem_counts;
          rep_user_len = nrows rep_counts
      in
      if int dem_user_len < min_docs \<or> int rep_user_len < min_docs
        then Inr (Insufficient (dem_user_len + rep_user_len))
      else
      let dem_counts = truncate_docs max_docs dem_counts;
          rep_counts = truncate_docs max_docs rep_counts;
          RNG = rng_seed rnd ambient 42
      in
      case subsample rnd RNG dem_counts rep_counts of Inl e \<Rightarrow> Inl e
      | Inr (dem_counts, rep_counts, RNG) \<Rightarrow>
      let dem_user_len = nrows dem_counts;
          rep_user_len = nrows rep_counts
      in
      case filter_rare_words dem_counts rep_counts of (dem_counts, rep_counts) \<Rightarrow>
      Inr (Prepared (filter_empty_users dem_counts) (filter_empty_users rep_counts)
             dem_user_len rep_user_len RNG))"

text \<open>
  The whole function. The values returned are those of \<^verbatim>\<open>calculate_polarization\<close>; what the
  function prints is left out.
\<close>

definition get_leaveout_score :: "'g rng_ops \<Rightarrow> 'g \<Rightarrow> (nat \<times> int) list list \<Rightarrow> (nat \<times> int) list list
    \<Rightarrow> 'w list \<Rightarrow> string \<Rightarrow> bool \<Rightarrow> npfloat \<Rightarrow> int \<Rightarrow> int
    \<Rightarrow> error + (npfloat option \<times> npfloat option \<times> nat)" where
  "get_leaveout_score rnd ambient corpus1 corpus2 id2word token_partisanship_measure leaveout
       default_score min_docs max_docs =
     (case prepare_counts rnd ambient corpus1 corpus2 id2word min_docs max_docs of
        Inl e \<Rightarrow> Inl e
      | Inr (Insufficient n) \<Rightarrow> Inr (Some default_score, Some default_score, n)
      | Inr (Prepared dem_counts rep_counts dem_user_len rep_user_len RNG) \<Rightarrow>
      case calculate_polarization dem_counts rep_counts token_partisanship_measure leaveout of
        Inl e \<Rightarrow> Inl e
      | Inr (out1, actual_val) \<Rightarrow>
      let all_counts = vstack dem_counts rep_counts in
      case rng_shuffle rnd RNG [0..<nrows all_counts] of (index, RNG1) \<Rightarrow>
      case select_rows all_counts index of Inl e \<Rightarrow> Inl e | Inr all_counts \<Rightarrow>
      case calculate_polarization (rows_to all_counts dem_user_len) (rows_from all_counts dem_user_len)
             token_partisanship_measure leaveout of
        Inl e \<Rightarrow> Inl e
      | Inr (out2, random_val) \<Rightarrow> Inr (actual_val, random_val, dem_user_len + rep_user_len))"

text \<open>
  A generator instance for examples: the sample is the first \<open>k\<close> indices, the shuffle
  reverses, seeding sets the state to the seed.
\<close>

definition prefix_rng :: "int rng_ops" where
  "prefix_rng = \<lparr>rng_seed = (\<lambda>g a. a),
                 rng_sample = (\<lambda>g n k. ([0..<k], g + 1)),
                 rng_shuffle = (\<lambda>g xs. (rev xs, g + 1))\<rparr>"

subsection \<open>Auxiliary definitions for the proofs\<close>

text \<open>
  The coordinate entries that the loops of \<^verbatim>\<open>get_news_token_counts\<close> produce, as one list of
  triples, and the contribution of one triple to the entry at \<open>(i, j)\<close>.
\<close>

fun entries_of :: "nat \<Rightarrow> (nat \<times> int) list list \<Rightarrow> (nat \<times> nat \<times> int) list" where
  "entries_of i [] = []"
| "entries_of i (doc # corpus) = map (Pair i) doc @ entries_of (Suc i) corpus"

definition pick :: "nat \<Rightarrow> nat \<Rightarrow> nat \<times> nat \<times> int \<Rightarrow> int" where
  "pick i j = (\<lambda>(r, c, d). if r = i \<and> c = j then d else 0)"


text \<open>The total that a list of \<^verbatim>\<open>Counter\<close> items holds for one key.\<close>

definition ksum :: "(nat \<times> nat) list \<Rightarrow> nat \<Rightarrow> nat" where
  "ksum kvs j = sum_list (map snd (filter (\<lambda>(k, v). k = j) kvs))"


text \<open>
  The last lines of \<^verbatim>\<open>calculate_polarization\<close>, from the results of the two loops (with
  leave-out) or from the one score vector of the symmetric measures (without).
\<close>

definition leaveout_result :: "error + npfloat \<Rightarrow> error + npfloat \<Rightarrow> nat \<Rightarrow> nat
    \<Rightarrow> error + (string list \<times> npfloat option)" where
  "leaveout_result dem_loop rep_loop dem_no rep_no =
     (case dem_loop of Inl e \<Rightarrow> Inl e | Inr dem_addup \<Rightarrow>
      case rep_loop of Inl e \<Rightarrow> Inl e | Inr rep_addup \<Rightarrow>
      case py_recip rep_no of Inl e \<Rightarrow> Inl e | Inr rep_recip \<Rightarrow>
      case py_recip dem_no of Inl e \<Rightarrow> Inl e | Inr dem_recip \<Rightarrow>
        Inr ([], Some (fmul (Fin (1 / 2)) (fadd (fmul dem_recip dem_addup) (fmul rep_recip rep_addup)))))"

definition no_leaveout_result :: "error + npfloat list \<Rightarrow> npfloat list list \<Rightarrow> npfloat list list
    \<Rightarrow> nat \<Rightarrow> nat \<Rightarrow> error + (string list \<times> npfloat option)" where
  "no_leaveout_result scores dem_distr rep_distr dem_no rep_no =
     (case scores of Inl e \<Rightarrow> Inl e | Inr v \<Rightarrow>
      case py_recip dem_no of Inl e \<Rightarrow> Inl e | Inr dem_recip \<Rightarrow>
      case py_recip rep_no of Inl e \<Rightarrow> Inl e | Inr rep_recip \<Rightarrow>
        Inr ([], Some (fmul (Fin (1 / 2))
          (fadd (fmul dem_recip (fsum (map (\<lambda>r. sparse_dot r v) dem_distr)))
                (fmul rep_recip (fsum (map (\<lambda>r. sparse_dot r v) rep_distr)))))))"

section \<open>Properties\<close>

subsection \<open>The count matrix of a corpus\<close>

lemma doc_loop_eq:
  "doc_loop i doc (rs, cs, ds) =
     (rs @ map (\<lambda>_. i) doc, cs @ map fst doc, ds @ map snd doc)"
  by (induction doc arbitrary: rs cs ds) auto

lemma corpus_loop_eq:
  "corpus_loop i corpus (rs, cs, ds) =
     (rs @ map fst (entries_of i corpus), cs @ map (fst \<circ> snd) (entries_of i corpus),
      ds @ map (snd \<circ> snd) (entries_of i corpus))"
proof (induction corpus arbitrary: i rs cs ds)
  case Nil
  then show ?case by simp
next
  case (Cons doc corpus)
  show ?case
    by (simp add: doc_loop_eq Cons.IH comp_def case_prod_unfold)
qed

lemma zip_entries: "zip (map fst ts) (zip (map (fst \<circ> snd) ts) (map (snd \<circ> snd) ts)) = ts"
  by (induction ts) auto

lemma entries_rows: "(r, c, d) \<in> set (entries_of i corpus) \<Longrightarrow> i \<le> r \<and> r < i + length corpus"
  by (induction corpus arbitrary: i) (fastforce)+

lemma entries_cols: "valid_corpus corpus V \<Longrightarrow> (r, c, d) \<in> set (entries_of i corpus) \<Longrightarrow> c < V"
  by (induction corpus arbitrary: i) (fastforce simp: valid_corpus_def)+

lemma wrap64_id:
  assumes "in_int64 x"
  shows "wrap64 x = x"
proof -
  have "0 \<le> x + 2 ^ 63" and "x + 2 ^ 63 < 2 ^ 64"
    using assms by (simp_all add: in_int64_def)
  then have "(x + 2 ^ 63) mod 2 ^ 64 = x + 2 ^ 63"
    by (rule mod_pos_pos_trivial)
  then show ?thesis by (simp add: wrap64_def)
qed

lemma wrap64_mod: "wrap64 x mod 2 ^ 64 = x mod 2 ^ 64"
proof -
  have "wrap64 x mod 2 ^ 64 = ((x + 2 ^ 63) mod 2 ^ 64 - 2 ^ 63) mod 2 ^ 64"
    unfolding wrap64_def ..
  also have "\<dots> = (x + 2 ^ 63 - 2 ^ 63) mod 2 ^ 64"
    by (rule mod_diff_left_eq)
  finally show ?thesis by (simp only: add_diff_cancel_right')
qed

lemma wrap64_cong: "x mod 2 ^ 64 = y mod 2 ^ 64 \<Longrightarrow> wrap64 x = wrap64 y"
proof -
  assume a: "x mod 2 ^ 64 = y mod 2 ^ 64"
  have "(x + 2 ^ 63) mod 2 ^ 64 = (x mod 2 ^ 64 + 2 ^ 63) mod 2 ^ 64"
    by (rule mod_add_left_eq[symmetric])
  also have "\<dots> = (y mod 2 ^ 64 + 2 ^ 63) mod 2 ^ 64"
    by (simp only: a)
  also have "\<dots> = (y + 2 ^ 63) mod 2 ^ 64"
    by (rule mod_add_left_eq)
  finally show ?thesis unfolding wrap64_def by (simp only:)
qed

lemma wrap64_diff_left: "wrap64 (wrap64 a - b) = wrap64 (a - b)"
proof (rule wrap64_cong)
  have "(wrap64 a - b) mod 2 ^ 64 = (wrap64 a mod 2 ^ 64 - b) mod 2 ^ 64"
    by (rule mod_diff_left_eq[symmetric])
  also have "\<dots> = (a mod 2 ^ 64 - b) mod 2 ^ 64"
    by (simp only: wrap64_mod)
  also have "\<dots> = (a - b) mod 2 ^ 64"
    by (rule mod_diff_left_eq)
  finally show "(wrap64 a - b) mod 2 ^ 64 = (a - b) mod 2 ^ 64" .
qed

lemma sum_list_mod_cong:
  "(\<And>x. x \<in> set xs \<Longrightarrow> f x mod m = g x mod m) \<Longrightarrow>
   sum_list (map f xs) mod m = sum_list (map g xs) mod (m::int)"
proof (induction xs)
  case Nil
  then show ?case by simp
next
  case (Cons x xs)
  have "f x mod m = g x mod m" using Cons.prems by simp
  moreover have "sum_list (map f xs) mod m = sum_list (map g xs) mod m"
    using Cons by simp
  ultimately have "(f x + sum_list (map f xs)) mod m = (g x + sum_list (map g xs)) mod m"
    by (rule mod_add_cong)
  then show ?case by simp
qed

lemma wrap64_sum_rows:
  "wrap64 (sum_list (map (\<lambda>i. sum_list (map (\<lambda>j. wrap64 (f i j)) js)) is)) =
   wrap64 (sum_list (map (\<lambda>i. sum_list (map (\<lambda>j. f i j) js)) is))"
proof (rule wrap64_cong)
  show "sum_list (map (\<lambda>i. sum_list (map (\<lambda>j. wrap64 (f i j)) js)) is) mod 2 ^ 64 =
        sum_list (map (\<lambda>i. sum_list (map (\<lambda>j. f i j) js)) is) mod 2 ^ 64"
  proof (rule sum_list_mod_cong)
    fix i
    show "sum_list (map (\<lambda>j. wrap64 (f i j)) js) mod 2 ^ 64 = sum_list (map (\<lambda>j. f i j) js) mod 2 ^ 64"
      by (rule sum_list_mod_cong) (rule wrap64_mod)
  qed
qed

lemma sum_pick_single:
  "sum_list (map (\<lambda>i. sum_list (map (\<lambda>j. pick i j (r, c, d)) [0..<n])) [0..<m]) =
     (if r < m \<and> c < n then d else 0)"
proof -
  have inner: "sum_list (map (\<lambda>j. pick i j (r, c, d)) [0..<n]) = (if r = i \<and> c < n then d else 0)" for i
    by (cases "r = i") (auto simp: interv_sum_list_conv_sum_set_nat pick_def sum.delta' intro!: sum.neutral)
  show ?thesis
    unfolding inner
    by (auto simp: interv_sum_list_conv_sum_set_nat sum.delta' intro!: sum.neutral)
qed

lemma sum_pick_all:
  assumes "\<forall>(r, c, d) \<in> set ts. r < m \<and> c < n"
  shows "sum_list (map (\<lambda>i. sum_list (map (\<lambda>j. sum_list (map (pick i j) ts)) [0..<n])) [0..<m]) =
     sum_list (map (snd \<circ> snd) ts)"
  using assms
proof (induction ts)
  case Nil
  then show ?case by simp
next
  case (Cons t ts)
  obtain r c d where t: "t = (r, c, d)" by (cases t) auto
  have rc: "r < m \<and> c < n" using Cons.prems t by simp
  have "sum_list (map (\<lambda>i. sum_list (map (\<lambda>j. sum_list (map (pick i j) (t # ts))) [0..<n])) [0..<m]) =
        sum_list (map (\<lambda>i. sum_list (map (\<lambda>j. pick i j (r, c, d)) [0..<n])) [0..<m]) +
        sum_list (map (\<lambda>i. sum_list (map (\<lambda>j. sum_list (map (pick i j) ts)) [0..<n])) [0..<m])"
    by (simp add: t sum_list_addf)
  also have "\<dots> = d + sum_list (map (snd \<circ> snd) ts)"
    using Cons rc by (simp add: sum_pick_single comp_def)
  finally show ?case by (simp add: t comp_def)
qed

lemma entries_total:
  "sum_list (map (snd \<circ> snd) (entries_of i corpus)) = sum_list (map (\<lambda>doc. sum_list (map snd doc)) corpus)"
proof (induction corpus arbitrary: i)
  case Nil
  then show ?case by simp
next
  case (Cons doc corpus)
  show ?case using Cons.IH by (simp add: comp_def)
qed

lemma pick_doc:
  "sum_list (map (pick i j \<circ> Pair k) doc) =
     (if k = i then sum_list (map snd (filter (\<lambda>(t, count). t = j) doc)) else 0)"
  by (induction doc) (auto simp: pick_def)

lemma pick_entries:
  "sum_list (map (pick i j) (entries_of k corpus)) =
     (if k \<le> i \<and> i < k + length corpus
      then sum_list (map snd (filter (\<lambda>(t, count). t = j) (corpus ! (i - k)))) else 0)"
proof (induction corpus arbitrary: k)
  case Nil
  then show ?case by simp
next
  case (Cons doc corpus)
  show ?case
  proof (cases "k = i")
    case True
    then show ?thesis by (simp add: pick_doc Cons.IH)
  next
    case False
    then show ?thesis
      by (auto simp: pick_doc Cons.IH nth_Cons' Suc_diff_le)
  qed
qed

lemma get_news_token_counts_eq:
  assumes "valid_corpus corpus (length idx2word)"
  shows "get_news_token_counts corpus idx2word =
     Inr \<lparr>ncols = length idx2word,
          rows = map (\<lambda>i. map (\<lambda>j. wrap64 (sum_list (map (pick i j) (entries_of 0 corpus))))
                            [0..<length idx2word])
                   [0..<length corpus]\<rparr>"
proof -
  let ?ts = "entries_of 0 corpus"
  have r: "\<not> (\<exists>r \<in> set (map fst ?ts). length corpus \<le> r)"
    using entries_rows[of _ _ _ 0 corpus] by fastforce
  have c: "\<not> (\<exists>c \<in> set (map (fst \<circ> snd) ?ts). length idx2word \<le> c)"
    using entries_cols[OF assms, of _ _ _ 0] by fastforce
  show ?thesis
    using r c
    by (simp add: get_news_token_counts_def corpus_loop_eq[of 0 corpus "[]" "[]" "[]", simplified]
        csr_from_coo_def coo_entry_def zip_entries pick_def del: set_map)
qed


text \<open>
  Claim C8, as amended. For a corpus whose token ids are all in the vocabulary and whose counts
  are \<^verbatim>\<open>int64\<close> values, \<^verbatim>\<open>get_news_token_counts\<close> returns a matrix with one row per document and
  one column per vocabulary entry. The sum of all its entries is the sum of all counts of the
  corpus reduced to the signed 64-bit range, hence that sum itself whenever it lies in the
  range. The entry at \<open>(i, j)\<close> is the sum of the counts that document \<open>i\<close> gives for token
  \<open>j\<close> (duplicate token ids are added up), reduced in the same way, hence that sum itself
  whenever it lies in the range.
\<close>

theorem get_news_token_counts_int64:
  assumes "valid_corpus corpus (length idx2word)" and "int64_counts corpus"
  shows "\<exists>M. get_news_token_counts corpus idx2word = Inr M
      \<and> nrows M = length corpus \<and> ncols M = length idx2word
      \<and> (\<forall>r \<in> set (rows M). length r = length idx2word)
      \<and> matrix_sum M = wrap64 (sum_list (map (\<lambda>doc. sum_list (map snd doc)) corpus))
      \<and> (in_int64 (sum_list (map (\<lambda>doc. sum_list (map snd doc)) corpus)) \<longrightarrow>
            matrix_sum M = sum_list (map (\<lambda>doc. sum_list (map snd doc)) corpus))
      \<and> (\<forall>i < length corpus. \<forall>j < length idx2word.
            rows M ! i ! j = wrap64 (sum_list (map snd (filter (\<lambda>(t, count). t = j) (corpus ! i))))
            \<and> (in_int64 (sum_list (map snd (filter (\<lambda>(t, count). t = j) (corpus ! i)))) \<longrightarrow>
                 rows M ! i ! j = sum_list (map snd (filter (\<lambda>(t, count). t = j) (corpus ! i)))))"
proof -
  let ?ts = "entries_of 0 corpus"
  let ?M = "\<lparr>ncols = length idx2word,
          rows = map (\<lambda>i. map (\<lambda>j. wrap64 (sum_list (map (pick i j) ?ts))) [0..<length idx2word])
                   [0..<length corpus]\<rparr>"
  let ?total = "sum_list (map (\<lambda>doc. sum_list (map snd doc)) corpus)"
  have eq: "get_news_token_counts corpus idx2word = Inr ?M"
    by (rule get_news_token_counts_eq[OF assms(1)])
  have bounds: "\<forall>(r, c, d) \<in> set ?ts. r < length corpus \<and> c < length idx2word"
    using entries_rows[of _ _ _ 0 corpus] entries_cols[OF assms(1), of _ _ _ 0] by fastforce
  have "matrix_sum ?M =
      wrap64 (sum_list (map (\<lambda>i. sum_list (map (\<lambda>j. sum_list (map (pick i j) ?ts)) [0..<length idx2word]))
                          [0..<length corpus]))"
    by (simp add: matrix_sum_def comp_def wrap64_sum_rows)
  then have total: "matrix_sum ?M = wrap64 ?total"
    using sum_pick_all[OF bounds] entries_total[of 0 corpus] by (simp add: comp_def)
  have total': "in_int64 ?total \<longrightarrow> matrix_sum ?M = ?total"
    using total by (simp add: wrap64_id)
  have entry: "\<forall>i < length corpus. \<forall>j < length idx2word.
      rows ?M ! i ! j = wrap64 (sum_list (map snd (filter (\<lambda>(t, count). t = j) (corpus ! i))))
      \<and> (in_int64 (sum_list (map snd (filter (\<lambda>(t, count). t = j) (corpus ! i)))) \<longrightarrow>
           rows ?M ! i ! j = sum_list (map snd (filter (\<lambda>(t, count). t = j) (corpus ! i))))"
    by (simp add: pick_entries wrap64_id)
  have shape: "nrows ?M = length corpus \<and> ncols ?M = length idx2word
      \<and> (\<forall>r \<in> set (rows ?M). length r = length idx2word)"
    by (auto simp: nrows_def)
  show ?thesis using eq total total' entry shape by blast
qed

theorem get_news_token_counts_int64_witness:
  "valid_corpus [[(0, 2), (1, 1), (0, 3)], []] (length [''a'', ''b''])
   \<and> int64_counts [[(0, 2), (1, 1), (0, 3)], []]
   \<and> in_int64 (sum_list (map (\<lambda>doc. sum_list (map snd doc)) [[(0 :: nat, 2), (1, 1), (0, 3)], []]))
   \<and> (\<exists>M. get_news_token_counts [[(0, 2), (1, 1), (0, 3)], []] [''a'', ''b''] = Inr M
      \<and> nrows M = 2 \<and> ncols M = 2 \<and> matrix_sum M = 6 \<and> rows M ! 0 ! 0 = 5)"
proof -
  let ?C = "[[(0, 2), (1, 1), (0, 3)], []] :: (nat \<times> int) list list"
  have v: "valid_corpus ?C (length [''a'', ''b''])"
    by (simp add: valid_corpus_def)
  have c: "int64_counts ?C"
    by (simp add: int64_counts_def in_int64_def)
  have t: "in_int64 (sum_list (map (\<lambda>doc. sum_list (map snd doc)) ?C))"
    by (simp add: in_int64_def)
  have e: "in_int64 (sum_list (map snd (filter (\<lambda>(t, count). t = 0) (?C ! 0))))"
    by (simp add: in_int64_def)
  from get_news_token_counts_int64[OF v c]
  obtain M where m: "get_news_token_counts ?C [''a'', ''b''] = Inr M"
    and n: "nrows M = length ?C" "ncols M = length [''a'', ''b'']"
    and s: "in_int64 (sum_list (map (\<lambda>doc. sum_list (map snd doc)) ?C)) \<longrightarrow>
         matrix_sum M = sum_list (map (\<lambda>doc. sum_list (map snd doc)) ?C)"
    and x: "\<forall>i < length ?C. \<forall>j < length [''a'', ''b''].
         rows M ! i ! j = wrap64 (sum_list (map snd (filter (\<lambda>(t, count). t = j) (?C ! i))))
         \<and> (in_int64 (sum_list (map snd (filter (\<lambda>(t, count). t = j) (?C ! i)))) \<longrightarrow>
              rows M ! i ! j = sum_list (map snd (filter (\<lambda>(t, count). t = j) (?C ! i))))"
    by (elim exE conjE)
  have s6: "matrix_sum M = 6" using s t by simp
  have "0 < length ?C" and "0 < length [''a'', ''b'']" by simp_all
  then have "rows M ! 0 ! 0 = sum_list (map snd (filter (\<lambda>(t, count). t = 0) (?C ! 0)))"
    using x e by blast
  then have x5: "rows M ! 0 ! 0 = 5" by simp
  have "nrows M = 2" "ncols M = 2" using n by simp_all
  then have "\<exists>M. get_news_token_counts ?C [''a'', ''b''] = Inr M
      \<and> nrows M = 2 \<and> ncols M = 2 \<and> matrix_sum M = 6 \<and> rows M ! 0 ! 0 = 5"
    using m s6 x5 by blast
  then show ?thesis using v c t by simp
qed

text \<open>
  Claim C8, as stated, fails: a document that gives token 0 the count \<open>2^62\<close> twice has the
  entry \<open>-2^63\<close>, and that is also the sum of the matrix, where the counts add up to \<open>2^63\<close>.
\<close>

theorem get_news_token_counts_wraps:
  "valid_corpus [[(0, 2 ^ 62), (0, 2 ^ 62)]] (length [''a''])
   \<and> get_news_token_counts [[(0, 2 ^ 62), (0, 2 ^ 62)]] [''a''] = Inr \<lparr>ncols = 1, rows = [[- (2 ^ 63)]]\<rparr>
   \<and> matrix_sum \<lparr>ncols = 1, rows = [[- (2 ^ 63)]]\<rparr> = - (2 ^ 63)
   \<and> sum_list (map (\<lambda>doc. sum_list (map snd doc)) [[(0, 2 ^ 62), (0, 2 ^ 62 :: int)]]) = 2 ^ 63"
proof -
  have v: "valid_corpus [[(0, 2 ^ 62), (0, 2 ^ 62)]] (length [''a''])"
    by (simp add: valid_corpus_def)
  have g: "get_news_token_counts [[(0, 2 ^ 62), (0, 2 ^ 62)]] [''a''] = Inr \<lparr>ncols = 1, rows = [[- (2 ^ 63)]]\<rparr>"
    unfolding get_news_token_counts_eq[OF v] by (simp add: pick_def wrap64_def)
  have m: "matrix_sum \<lparr>ncols = 1, rows = [[- (2 ^ 63)]]\<rparr> = - (2 ^ 63)"
    by (simp add: matrix_sum_def wrap64_def)
  show ?thesis using v g m by simp
qed

subsection \<open>The guard and the document cap of \<^verbatim>\<open>get_leaveout_score\<close>\<close>



lemma truncate_docs_id: "truncate_docs max_docs counts = counts"
  by (simp add: truncate_docs_def rows_to_def nrows_def Let_def)

text \<open>
  Claim C2. The claim is that a group of more than \<^verbatim>\<open>max_docs\<close> documents is cut to its first
  \<^verbatim>\<open>max_docs\<close> rows. The slice of the code is \<^verbatim>\<open>[:dem_user_len]\<close>, the whole matrix: with
  three documents in each group, \<^verbatim>\<open>min_docs = 1\<close> and \<^verbatim>\<open>max_docs = 2\<close>, both matrices given
  to the estimator still have three rows.
\<close>

theorem prepare_counts_not_truncated:
  "prepare_counts prefix_rng 0 [[(0, 1)], [(0, 1)], [(0, 1)]] [[(0, 1)], [(0, 1)], [(0, 1)]] [''a''] 1 2 =
     Inr (Prepared \<lparr>ncols = 1, rows = [[1], [1], [1]]\<rparr> \<lparr>ncols = 1, rows = [[1], [1], [1]]\<rparr> 3 3 42)"
  by code_simp

subsection \<open>Presence counts and the leave-out decrement\<close>

lemma ksum_Nil: "ksum [] j = 0"
  by (simp add: ksum_def)

lemma ksum_Cons: "ksum ((k, v) # kvs) j = (if k = j then v else 0) + ksum kvs j"
  by (simp add: ksum_def)

lemma ksum_counter_add: "ksum (counter_add k kvs) j = ksum kvs j + (if k = j then 1 else 0)"
  by (induction kvs) (auto simp: ksum_def)

lemma ksum_fold_counter_add: "ksum (fold counter_add xs kvs) j = ksum kvs j + count_list xs j"
  by (induction xs arbitrary: kvs) (auto simp: ksum_counter_add)

lemma ksum_Counter: "ksum (Counter xs) j = count_list xs j"
  by (simp add: Counter_def ksum_fold_counter_add ksum_Nil)

lemma fadd_Fin_0 [simp]: "fadd a (Fin 0) = a"
  by (cases a) auto

lemma fadd_Fin_Fin: "fadd (fadd a (Fin x)) (Fin y) = fadd a (Fin (x + y))"
  by (cases a) auto

lemma fsub_Fin_0 [simp]: "fsub a (Fin 0) = a"
  by (cases a) auto

lemma fsub_fsub_Fin: "fsub (fsub a (Fin x)) (Fin y) = fsub a (Fin (x + y))"
  by (cases a) auto

lemma length_fold_add:
  "length (fold (\<lambda>(k, v) party_t. party_t[k := fadd (party_t ! k) (Fin (of_nat v))]) kvs t) = length t"
  by (induction kvs arbitrary: t) auto

lemma nth_fold_add:
  "j < length t \<Longrightarrow>
   fold (\<lambda>(k, v) party_t. party_t[k := fadd (party_t ! k) (Fin (of_nat v))]) kvs t ! j =
     fadd (t ! j) (Fin (of_nat (ksum kvs j)))"
proof (induction kvs arbitrary: t)
  case Nil
  then show ?case by (simp add: ksum_Nil)
next
  case (Cons kv kvs)
  obtain k v where kv: "kv = (k, v)" by (cases kv) auto
  show ?case
    using Cons.prems
    by (simp add: kv Cons.IH nth_list_update fadd_Fin_Fin ksum_Cons)
qed

lemma get_token_user_counts_eq:
  "get_token_user_counts C =
     map (\<lambda>j. Fin (1 + of_nat (count_list (find_cols C) j))) [0..<ncols C]"
  by (rule nth_equalityI)
     (simp_all add: get_token_user_counts_def Let_def length_fold_add nth_fold_add ksum_Counter)

lemma length_fold_sub:
  "length (fold (\<lambda>term_idx t. t[term_idx := fsub (t ! term_idx) (Fin 1)]) ks t) = length t"
  by (induction ks arbitrary: t) auto

lemma nth_fold_sub:
  "j < length t \<Longrightarrow>
   fold (\<lambda>term_idx t. t[term_idx := fsub (t ! term_idx) (Fin 1)]) ks t ! j =
     fsub (t ! j) (Fin (of_nat (count_list ks j)))"
proof (induction ks arbitrary: t)
  case Nil
  then show ?case by simp
next
  case (Cons k ks)
  show ?case
    using Cons.prems
    by (simp add: Cons.IH nth_list_update fsub_fsub_Fin)
qed

lemma count_list_concat: "count_list (concat xss) j = sum_list (map (\<lambda>xs. count_list xs j) xss)"
  by (induction xss) auto

lemma find_cols_remove_row:
  assumes "i < nrows C"
  shows "count_list (find_cols C) j =
     count_list (find_cols (remove_row C i)) j + count_list (row_find (ncols C) (rows C ! i)) j"
proof -
  have "rows C = take i (rows C) @ rows C ! i # drop (Suc i) (rows C)"
    using assms by (simp add: nrows_def id_take_nth_drop[symmetric])
  then have "find_cols C = concat (map (row_find (ncols C)) (take i (rows C) @ rows C ! i # drop (Suc i) (rows C)))"
    by (simp add: find_cols_def)
  then show ?thesis
    by (simp add: find_cols_def remove_row_def count_list_concat)
qed

text \<open>
  Claim C4. For every matrix and every row index \<open>i\<close> of it, copying the presence counts of
  \<^verbatim>\<open>get_token_user_counts\<close> and decrementing the tokens that are nonzero in row \<open>i\<close> gives
  the presence counts of the matrix without row \<open>i\<close>.
\<close>

theorem leaveout_t_recompute:
  assumes "i < nrows C"
  shows "leaveout_t C (get_token_user_counts C) i = get_token_user_counts (remove_row C i)"
proof (rule nth_equalityI)
  show "length (leaveout_t C (get_token_user_counts C) i) = length (get_token_user_counts (remove_row C i))"
    by (simp add: leaveout_t_def Let_def length_fold_sub get_token_user_counts_eq remove_row_def)
next
  fix j
  assume "j < length (leaveout_t C (get_token_user_counts C) i)"
  then have j: "j < ncols C"
    by (simp add: leaveout_t_def Let_def length_fold_sub get_token_user_counts_eq)
  have "leaveout_t C (get_token_user_counts C) i ! j =
      Fin (1 + of_nat (count_list (find_cols C) j) - of_nat (count_list (row_find (ncols C) (rows C ! i)) j))"
    using j by (simp add: leaveout_t_def Let_def nth_fold_sub get_token_user_counts_eq)
  also have "\<dots> = Fin (1 + of_nat (count_list (find_cols (remove_row C i)) j))"
    by (simp add: find_cols_remove_row[OF assms, of j])
  also have "\<dots> = get_token_user_counts (remove_row C i) ! j"
    using j by (simp add: get_token_user_counts_eq remove_row_def)
  finally show "leaveout_t C (get_token_user_counts C) i ! j = get_token_user_counts (remove_row C i) ! j" .
qed

theorem leaveout_t_recompute_witness:
  "(1::nat) < nrows \<lparr>ncols = 3, rows = [[2, 0, 1], [0, 4, 1]]\<rparr>
   \<and> leaveout_t \<lparr>ncols = 3, rows = [[2, 0, 1], [0, 4, 1]]\<rparr>
        (get_token_user_counts \<lparr>ncols = 3, rows = [[2, 0, 1], [0, 4, 1]]\<rparr>) 1 =
      get_token_user_counts (remove_row \<lparr>ncols = 3, rows = [[2, 0, 1], [0, 4, 1]]\<rparr> 1)
   \<and> get_token_user_counts (remove_row \<lparr>ncols = 3, rows = [[2, 0, 1], [0, 4, 1]]\<rparr> 1) = [Fin 2, Fin 1, Fin 2]"
proof -
  have h: "(1::nat) < nrows \<lparr>ncols = 3, rows = [[2, 0, 1], [0, 4, 1]]\<rparr>"
    by (simp add: nrows_def)
  have v: "get_token_user_counts (remove_row \<lparr>ncols = 3, rows = [[2, 0, 1], [0, 4, 1]]\<rparr> 1) = [Fin 2, Fin 1, Fin 2]"
    by (simp add: get_token_user_counts_eq remove_row_def find_cols_def row_find_def upt_rec[of _ 3])
  show ?thesis
    using h v leaveout_t_recompute[OF h] by simp
qed

subsection \<open>The denominator of \<^verbatim>\<open>chi_square\<close>\<close>

lemma count_list_distinct_le: "distinct xs \<Longrightarrow> count_list xs k \<le> 1"
  by (induction xs) (auto simp: count_list_0_iff)

lemma count_row_find_le: "count_list (row_find n r) k \<le> 1"
  by (rule count_list_distinct_le) (simp add: row_find_def)

lemma count_find_cols_le: "count_list (find_cols C) k \<le> nrows C"
proof -
  have "sum_list (map (\<lambda>r. count_list (row_find n r) k) rs) \<le> length rs" for n rs
  proof (induction rs)
    case Nil
    then show ?case by simp
  next
    case (Cons r rs)
    then show ?case using count_row_find_le[of n r k] by simp
  qed
  then show ?thesis
    by (simp add: find_cols_def count_list_concat nrows_def comp_def)
qed

lemma get_token_user_counts_bounds:
  assumes "k < ncols C"
  shows "\<exists>c. get_token_user_counts C ! k = Fin c \<and> 1 \<le> c \<and> c \<le> of_nat (nrows C) + 1"
  using assms count_find_cols_le[of C k] by (simp add: get_token_user_counts_eq)

lemma chi_denom_pos:
  assumes "1 \<le> a" "a \<le> of_nat n1 + 1" "1 \<le> b" "b \<le> of_nat n2 + 1"
  shows "\<exists>d. 0 < d \<and>
    chi_denom (Fin a) (Fin b) (fadd (fsub (Fin (of_int (int n1))) (Fin a)) (Fin 2))
      (fadd (fsub (Fin (of_int (int n2))) (Fin b)) (Fin 2)) (int n1) (int n2) = Fin d"
proof -
  have p1: "0 < a + b" using assms by linarith
  have p2: "0 < real n1 + real n2 - (a + b) + 4" using assms by linarith
  have p3: "0 < a + (real n1 - a + 2)" by linarith
  have p4: "0 < b + (real n2 - b + 2)" by linarith
  have "0 < (a + b) * (real n1 + real n2 - (a + b) + 4) * (a + (real n1 - a + 2)) * (b + (real n2 - b + 2))"
    using p1 p2 p3 p4 by (intro mult_pos_pos)
  then show ?thesis
    by (simp add: chi_denom_def Let_def)
qed

text \<open>
  Claim C10. With presence counts from \<^verbatim>\<open>get_token_user_counts\<close> and complements
  \<^verbatim>\<open>n - presence + 2\<close>, the denominator of \<^verbatim>\<open>chi_square\<close> is a finite, strictly positive
  number at every token: the division is never by zero.
\<close>

theorem chi_square_denominator_positive:
  assumes "k < ncols dem_counts" and "k < ncols rep_counts"
  shows "\<exists>d. 0 < d \<and>
    chi_denom (get_token_user_counts dem_counts ! k) (get_token_user_counts rep_counts ! k)
      (not_t (int (nrows dem_counts)) (get_token_user_counts dem_counts) ! k)
      (not_t (int (nrows rep_counts)) (get_token_user_counts rep_counts) ! k)
      (int (nrows dem_counts)) (int (nrows rep_counts)) = Fin d"
proof -
  obtain a where a: "get_token_user_counts dem_counts ! k = Fin a" "1 \<le> a" "a \<le> of_nat (nrows dem_counts) + 1"
    using get_token_user_counts_bounds[OF assms(1)] by blast
  obtain b where b: "get_token_user_counts rep_counts ! k = Fin b" "1 \<le> b" "b \<le> of_nat (nrows rep_counts) + 1"
    using get_token_user_counts_bounds[OF assms(2)] by blast
  have ld: "length (get_token_user_counts dem_counts) = ncols dem_counts"
    by (simp add: get_token_user_counts_eq)
  have lr: "length (get_token_user_counts rep_counts) = ncols rep_counts"
    by (simp add: get_token_user_counts_eq)
  show ?thesis
    using chi_denom_pos[OF a(2) a(3) b(2) b(3)] assms
    by (simp add: not_t_def a(1) b(1) ld lr)
qed

theorem chi_square_denominator_positive_witness:
  "(0::nat) < ncols \<lparr>ncols = 1, rows = [[2], [1]]\<rparr> \<and> (0::nat) < ncols \<lparr>ncols = 1, rows = [[3]]\<rparr>
   \<and> (\<exists>d. 0 < d \<and>
    chi_denom (get_token_user_counts \<lparr>ncols = 1, rows = [[2], [1]]\<rparr> ! 0)
      (get_token_user_counts \<lparr>ncols = 1, rows = [[3]]\<rparr> ! 0)
      (not_t (int (nrows \<lparr>ncols = 1, rows = [[2], [1]]\<rparr>)) (get_token_user_counts \<lparr>ncols = 1, rows = [[2], [1]]\<rparr>) ! 0)
      (not_t (int (nrows \<lparr>ncols = 1, rows = [[3]]\<rparr>)) (get_token_user_counts \<lparr>ncols = 1, rows = [[3]]\<rparr>) ! 0)
      (int (nrows \<lparr>ncols = 1, rows = [[2], [1]]\<rparr>)) (int (nrows \<lparr>ncols = 1, rows = [[3]]\<rparr>)) = Fin d)
   \<and> get_token_user_counts \<lparr>ncols = 1, rows = [[2], [1]]\<rparr> = [Fin 3]
   \<and> chi_denom (Fin 3) (Fin 2) (Fin 1) (Fin 1) 2 1 = Fin 120"
proof -
  have v: "get_token_user_counts \<lparr>ncols = 1, rows = [[2], [1]]\<rparr> = [Fin 3]"
    by (simp add: get_token_user_counts_eq find_cols_def row_find_def)
  have w: "chi_denom (Fin 3) (Fin 2) (Fin 1) (Fin 1) 2 1 = Fin 120"
    by (simp add: chi_denom_def)
  have h1: "(0::nat) < ncols \<lparr>ncols = 1, rows = [[2], [1]]\<rparr>" by simp
  have h2: "(0::nat) < ncols \<lparr>ncols = 1, rows = [[3]]\<rparr>" by simp
  show ?thesis
    using h1 h2 v w chi_square_denominator_positive[OF h1 h2] by blast
qed

subsection \<open>Leaving a document out of the group distribution\<close>

lemma get_party_q_zero: "get_party_q C (Some 0) = get_party_q C None"
  by (simp add: get_party_q_def)

text \<open>
  Claim C1. The claim is that \<^verbatim>\<open>get_party_q(C, e)\<close> is the distribution of \<open>C\<close> without row
  \<open>e\<close> for every row index, \<open>e = 0\<close> included. The test \<^verbatim>\<open>if exclude_user_id:\<close> is false at
  \<open>0\<close>: for the matrix with rows \<open>[1, 0]\<close> and \<open>[0, 1]\<close>, the call with \<open>e = 0\<close> returns the
  distribution of the whole matrix, \<open>[1/2, 1/2]\<close>, where the matrix without row \<open>0\<close> has the
  distribution \<open>[0, 1]\<close>; the call with \<open>e = 1\<close> does leave row \<open>1\<close> out.
\<close>

theorem get_party_q_row0_not_removed:
  "get_party_q \<lparr>ncols = 2, rows = [[1, 0], [0, 1]]\<rparr> (Some 0) = Inr [Fin (1 / 2), Fin (1 / 2)]
   \<and> get_party_q (remove_row \<lparr>ncols = 2, rows = [[1, 0], [0, 1]]\<rparr> 0) None = Inr [Fin 0, Fin 1]
   \<and> get_party_q \<lparr>ncols = 2, rows = [[1, 0], [0, 1]]\<rparr> (Some 1) = Inr [Fin 1, Fin 0]
   \<and> get_party_q (remove_row \<lparr>ncols = 2, rows = [[1, 0], [0, 1]]\<rparr> 1) None = Inr [Fin 1, Fin 0]"
  by (simp add: get_party_q_def sum_axis0_def vec_div_def remove_row_def nrows_def upt_rec[of _ 2]
      wrap64_def)

lemma sum_axis0_remove_row:
  assumes "e < nrows C"
  shows "sum_axis0 (remove_row C e) =
    map (\<lambda>j. wrap64 (sum_axis0 C ! j - rows C ! e ! j)) [0..<ncols C]"
proof -
  have split: "rows C = take e (rows C) @ rows C ! e # drop (Suc e) (rows C)"
    using assms by (simp add: nrows_def id_take_nth_drop[symmetric])
  have s: "sum_list (map (\<lambda>r. r ! j) (rows C)) - rows C ! e ! j =
        sum_list (map (\<lambda>r. r ! j) (take e (rows C) @ drop (Suc e) (rows C)))" for j
    by (subst split) simp
  have "wrap64 (wrap64 (sum_list (map (\<lambda>r. r ! j) (rows C))) - rows C ! e ! j) =
        wrap64 (sum_list (map (\<lambda>r. r ! j) (take e (rows C) @ drop (Suc e) (rows C))))" for j
    by (simp only: wrap64_diff_left s)
  then show ?thesis
    by (simp add: sum_axis0_def remove_row_def)
qed

lemma get_party_q_leaveout:
  assumes "0 < e" and "e < nrows C"
  shows "get_party_q C (Some e) = get_party_q (remove_row C e) None"
proof -
  obtain n where n: "e = Suc n" using assms(1) by (cases e) auto
  have c: "ncols (remove_row C e) = ncols C" by (simp add: remove_row_def)
  show ?thesis
    using assms(2) unfolding n[symmetric]
    by (simp add: get_party_q_def n sum_axis0_remove_row[OF assms(2)] Let_def)
       (simp add: n[symmetric] sum_axis0_remove_row[OF assms(2)])
qed

subsection \<open>An unknown measure\<close>

lemma row_sum_pos: "\<forall>x \<in> set r. (0::int) \<le> x \<Longrightarrow> \<exists>x \<in> set r. x \<noteq> 0 \<Longrightarrow> 0 < sum_list r"
proof (induction r)
  case Nil
  then show ?case by simp
next
  case (Cons a r)
  have nn: "0 \<le> sum_list r" using Cons.prems(1) by (simp add: sum_list_nonneg)
  show ?case
  proof (cases "a = 0")
    case True
    then show ?thesis using Cons by auto
  next
    case False
    then have "0 < a" using Cons.prems(1) by auto
    then show ?thesis using nn by simp
  qed
qed

lemma sum_axis1_nonzero:
  assumes "count_matrix M" and "no_zero_rows M" and "int64_row_totals M"
  shows "\<not> (\<exists>s \<in> set (sum_axis1 M). s = 0)"
proof -
  have "wrap64 (sum_list r) \<noteq> 0" if "r \<in> set (rows M)" for r
  proof -
    have "0 < sum_list r"
      using that assms(1,2) row_sum_pos[of r] by (auto simp: count_matrix_def no_zero_rows_def)
    moreover have "sum_list r < 2 ^ 63"
      using that assms(3) by (simp add: int64_row_totals_def)
    ultimately have "wrap64 (sum_list r) = sum_list r" and "sum_list r \<noteq> 0"
      by (simp_all add: wrap64_id in_int64_def)
    then show ?thesis by simp
  qed
  then show ?thesis by (fastforce simp: sum_axis1_def)
qed

text \<open>
  Claim C5, as amended. For count matrices without all-zero rows whose row totals are below
  \<open>2^63\<close>, and a measure that is none of \<^verbatim>\<open>posterior\<close>, \<^verbatim>\<open>mutual_information\<close>,
  \<^verbatim>\<open>chi_square\<close>, \<^verbatim>\<open>calculate_polarization\<close> prints \<^verbatim>\<open>invalid method\<close> and returns \<^verbatim>\<open>None\<close>,
  without raising, whatever \<^verbatim>\<open>leaveout\<close> is.
\<close>

theorem calculate_polarization_invalid_measure_int64:
  assumes "count_matrix dem_counts" and "no_zero_rows dem_counts" and "int64_row_totals dem_counts"
      and "count_matrix rep_counts" and "no_zero_rows rep_counts" and "int64_row_totals rep_counts"
      and "measure' \<notin> {''posterior'', ''mutual_information'', ''chi_square''}"
  shows "calculate_polarization dem_counts rep_counts measure' leaveout = Inr ([''invalid method''], None)"
  using sum_axis1_nonzero[OF assms(1,2,3)] sum_axis1_nonzero[OF assms(4,5,6)] assms(7)
  by (simp add: calculate_polarization_def Let_def)

theorem calculate_polarization_invalid_measure_int64_witness:
  "count_matrix \<lparr>ncols = 2, rows = [[1, 0], [2, 1]]\<rparr> \<and> no_zero_rows \<lparr>ncols = 2, rows = [[1, 0], [2, 1]]\<rparr>
   \<and> int64_row_totals \<lparr>ncols = 2, rows = [[1, 0], [2, 1]]\<rparr>
   \<and> count_matrix \<lparr>ncols = 2, rows = [[0, 3]]\<rparr> \<and> no_zero_rows \<lparr>ncols = 2, rows = [[0, 3]]\<rparr>
   \<and> int64_row_totals \<lparr>ncols = 2, rows = [[0, 3]]\<rparr>
   \<and> ''cosine'' \<notin> {''posterior'', ''mutual_information'', ''chi_square''}
   \<and> calculate_polarization \<lparr>ncols = 2, rows = [[1, 0], [2, 1]]\<rparr> \<lparr>ncols = 2, rows = [[0, 3]]\<rparr> ''cosine'' True
        = Inr ([''invalid method''], None)
   \<and> calculate_polarization \<lparr>ncols = 2, rows = [[1, 0], [2, 1]]\<rparr> \<lparr>ncols = 2, rows = [[0, 3]]\<rparr> ''cosine'' False
        = Inr ([''invalid method''], None)"
proof -
  have h1: "count_matrix \<lparr>ncols = 2, rows = [[1, 0], [2, 1]]\<rparr>" by (simp add: count_matrix_def)
  have h2: "no_zero_rows \<lparr>ncols = 2, rows = [[1, 0], [2, 1]]\<rparr>" by (simp add: no_zero_rows_def)
  have h3: "int64_row_totals \<lparr>ncols = 2, rows = [[1, 0], [2, 1]]\<rparr>" by (simp add: int64_row_totals_def)
  have h4: "count_matrix \<lparr>ncols = 2, rows = [[0, 3]]\<rparr>" by (simp add: count_matrix_def)
  have h5: "no_zero_rows \<lparr>ncols = 2, rows = [[0, 3]]\<rparr>" by (simp add: no_zero_rows_def)
  have h6: "int64_row_totals \<lparr>ncols = 2, rows = [[0, 3]]\<rparr>" by (simp add: int64_row_totals_def)
  have h7: "''cosine'' \<notin> {''posterior'', ''mutual_information'', ''chi_square''}" by simp
  show ?thesis
    using h1 h2 h3 h4 h5 h6 h7 calculate_polarization_invalid_measure_int64[OF h1 h2 h3 h4 h5 h6 h7]
    by simp
qed

text \<open>
  Claim C5, as stated, fails: the row \<open>[2^62, 2^62, 2^62, 2^62]\<close> is non-negative and not
  all-zero, its \<^verbatim>\<open>int64\<close> total is \<open>0\<close>, and the assertion of line 685 fails before the measure
  is looked at.
\<close>

theorem calculate_polarization_invalid_measure_overflow:
  "count_matrix \<lparr>ncols = 4, rows = [[2 ^ 62, 2 ^ 62, 2 ^ 62, 2 ^ 62]]\<rparr>
   \<and> no_zero_rows \<lparr>ncols = 4, rows = [[2 ^ 62, 2 ^ 62, 2 ^ 62, 2 ^ 62]]\<rparr>
   \<and> ''cosine'' \<notin> {''posterior'', ''mutual_information'', ''chi_square''}
   \<and> calculate_polarization \<lparr>ncols = 4, rows = [[2 ^ 62, 2 ^ 62, 2 ^ 62, 2 ^ 62]]\<rparr>
        \<lparr>ncols = 4, rows = [[2 ^ 62, 2 ^ 62, 2 ^ 62, 2 ^ 62]]\<rparr> ''cosine'' True = Inl AssertionError
   \<and> calculate_polarization \<lparr>ncols = 4, rows = [[2 ^ 62, 2 ^ 62, 2 ^ 62, 2 ^ 62]]\<rparr>
        \<lparr>ncols = 4, rows = [[2 ^ 62, 2 ^ 62, 2 ^ 62, 2 ^ 62]]\<rparr> ''cosine'' False = Inl AssertionError"
  by (simp add: count_matrix_def no_zero_rows_def calculate_polarization_def Let_def sum_axis1_def
      wrap64_def)

subsection \<open>Determinism of \<^verbatim>\<open>get_leaveout_score\<close>\<close>

text \<open>
  Claim C9. The generator is created inside the call and seeded with the constant 42; as seeding
  replaces the state of a generator, the result of \<^verbatim>\<open>get_leaveout_score\<close> does not depend on
  the state in which the generator came up, and no other source of randomness is read: two
  runs on the same corpora, vocabulary and configuration return the same triple.
\<close>

theorem get_leaveout_score_deterministic:
  assumes "seed_resets rnd"
  shows "get_leaveout_score rnd ambient1 corpus1 corpus2 id2word measure' leaveout default_score min_docs max_docs =
         get_leaveout_score rnd ambient2 corpus1 corpus2 id2word measure' leaveout default_score min_docs max_docs"
proof -
  have s: "rng_seed rnd ambient1 42 = rng_seed rnd ambient2 42"
    using assms by (simp add: seed_resets_def)
  have "prepare_counts rnd ambient1 corpus1 corpus2 id2word min_docs max_docs =
        prepare_counts rnd ambient2 corpus1 corpus2 id2word min_docs max_docs"
    unfolding prepare_counts_def s ..
  then show ?thesis
    by (simp add: get_leaveout_score_def)
qed

lemmas cp_eval = calculate_polarization_def Let_def sum_axis1_def user_distr_def nrows_def
      get_party_q_def sum_axis0_def vec_div_def get_rho_def py_recip_def sparse_dot_def fsum_def
      token_scores_no_leaveout_def wrap64_def

theorem get_leaveout_score_deterministic_witness:
  "seed_resets prefix_rng
   \<and> get_leaveout_score prefix_rng 0 [[(0, 3)], [(0, 3)], [(0, 3)]] [[(1, 3)], [(1, 3)], [(1, 3)]]
        [''A'', ''B''] ''posterior'' False (Fin (1 / 2)) 1 10 =
      get_leaveout_score prefix_rng 7 [[(0, 3)], [(0, 3)], [(0, 3)]] [[(1, 3)], [(1, 3)], [(1, 3)]]
        [''A'', ''B''] ''posterior'' False (Fin (1 / 2)) 1 10
   \<and> get_leaveout_score prefix_rng 7 [[(0, 3)], [(0, 3)], [(0, 3)]] [[(1, 3)], [(1, 3)], [(1, 3)]]
        [''A'', ''B''] ''posterior'' False (Fin (1 / 2)) 1 10 = Inr (Some (Fin 1), Some (Fin 1), 6)"
proof -
  have h: "seed_resets prefix_rng"
    by (simp add: seed_resets_def prefix_rng_def)
  have p: "prepare_counts prefix_rng 7 [[(0, 3)], [(0, 3)], [(0, 3)]] [[(1, 3)], [(1, 3)], [(1, 3)]]
        [''A'', ''B''] 1 10 =
      Inr (Prepared \<lparr>ncols = 2, rows = [[3, 0], [3, 0], [3, 0]]\<rparr>
             \<lparr>ncols = 2, rows = [[0, 3], [0, 3], [0, 3]]\<rparr> 3 3 42)"
    by code_simp
  have a: "calculate_polarization \<lparr>ncols = 2, rows = [[3, 0], [3, 0], [3, 0]]\<rparr>
     \<lparr>ncols = 2, rows = [[0, 3], [0, 3], [0, 3]]\<rparr> ''posterior'' False = Inr ([], Some (Fin 1))"
    by (simp add: cp_eval upt_rec[of _ 2])
  have sh: "rng_shuffle prefix_rng g xs = (rev xs, g + 1)" for g xs
    by (simp add: prefix_rng_def)
  have vs: "vstack \<lparr>ncols = 2, rows = [[3, 0], [3, 0], [3, 0]]\<rparr>
             \<lparr>ncols = 2, rows = [[0, 3], [0, 3], [0, 3]]\<rparr> =
      \<lparr>ncols = 2, rows = [[3, 0], [3, 0], [3, 0], [0, 3], [0, 3], [0, 3]]\<rparr>"
    by (simp add: vstack_def)
  have nr: "nrows \<lparr>ncols = 2, rows = [[3, 0], [3, 0], [3, 0], [0, 3], [0, 3], [0, 3]]\<rparr> = 6"
    by (simp add: nrows_def)
  have s: "select_rows \<lparr>ncols = 2, rows = [[3, 0], [3, 0], [3, 0], [0, 3], [0, 3], [0, 3]]\<rparr>
        (rev [0..<6]) =
      Inr \<lparr>ncols = 2, rows = [[0, 3], [0, 3], [0, 3], [3, 0], [3, 0], [3, 0]]\<rparr>"
    by code_simp
  have rt: "rows_to \<lparr>ncols = 2, rows = [[0, 3], [0, 3], [0, 3], [3, 0], [3, 0], [3, 0]]\<rparr> 3 =
      \<lparr>ncols = 2, rows = [[0, 3], [0, 3], [0, 3]]\<rparr>"
    by (simp add: rows_to_def)
  have rf: "rows_from \<lparr>ncols = 2, rows = [[0, 3], [0, 3], [0, 3], [3, 0], [3, 0], [3, 0]]\<rparr> 3 =
      \<lparr>ncols = 2, rows = [[3, 0], [3, 0], [3, 0]]\<rparr>"
    by (simp add: rows_from_def)
  have r: "calculate_polarization \<lparr>ncols = 2, rows = [[0, 3], [0, 3], [0, 3]]\<rparr>
     \<lparr>ncols = 2, rows = [[3, 0], [3, 0], [3, 0]]\<rparr> ''posterior'' False = Inr ([], Some (Fin 1))"
    by (simp add: cp_eval upt_rec[of _ 2])
  have v: "get_leaveout_score prefix_rng 7 [[(0, 3)], [(0, 3)], [(0, 3)]] [[(1, 3)], [(1, 3)], [(1, 3)]]
        [''A'', ''B''] ''posterior'' False (Fin (1 / 2)) 1 10 = Inr (Some (Fin 1), Some (Fin 1), 6)"
    unfolding get_leaveout_score_def p
    by (simp add: a vs nr sh s rt rf r)
  show ?thesis
    using h v get_leaveout_score_deterministic[OF h, of 0 "[[(0, 3)], [(0, 3)], [(0, 3)]]"
        "[[(1, 3)], [(1, 3)], [(1, 3)]]" "[''A'', ''B'']" "''posterior''" False "Fin (1 / 2)" 1 10 7]
    by simp
qed

subsection \<open>Group sizes before the estimator\<close>




lemma filter_empty_users_rows: "nrows (filter_empty_users counts) \<le> nrows counts"
proof -
  have "length (filter P [0..<n]) \<le> n" for P and n :: nat
    using length_filter_le[of P "[0..<n]"] by simp
  then show ?thesis
    by (simp add: filter_empty_users_def Let_def mask_rows_def nrows_def)
qed







subsection \<open>Exchanging the two groups\<close>

text \<open>
  Exchanging the groups leaves the operations of \<^verbatim>\<open>chi_square\<close> and of the final average the
  same up to the order of the two operands of an addition or a multiplication and the sign
  of the difference that line 672 squares, which do not change a double, and up to the order
  of the last two factors of the denominator of line 673.
  That denominator is a product of four integers between \<open>1\<close> and \<open>n1 + n2 + 4\<close>; when
  \<open>n1 + n2 + 4\<close> is at most \<open>2^13\<close> every partial product is below \<open>2^53\<close> and exact in a
  double, in either order. The theorem below carries this bound. For
  \<^verbatim>\<open>mutual_information\<close> the exchange regroups the sum of four rounded terms of line 665;
  nothing is stated about it.
\<close>

lemma fadd_commute: "fadd a b = fadd b a"
  by (cases a; cases b) auto

lemma fmul_commute: "fmul a b = fmul b a"
  by (cases a; cases b) auto

lemma fmul_right_commute: "fmul (fmul a b) c = fmul (fmul a c) b"
  by (cases a; cases b; cases c) auto

lemma chi_enum_sym:
  "chi_enum a b na nb n1 n2 = chi_enum b a nb na n2 n1"
  by (cases a; cases b; cases na; cases nb) (simp_all add: chi_enum_def Let_def algebra_simps)

lemma chi_denom_sym:
  "chi_denom a b na nb n1 n2 = chi_denom b a nb na n2 n1"
proof -
  have n: "n2 + n1 = n1 + n2" by simp
  have t: "fadd b a = fadd a b" by (rule fadd_commute)
  show ?thesis
    unfolding chi_denom_def Let_def n t
    by (rule fmul_right_commute)
qed

lemma chi_token_sym:
  "chi_token a b na nb n1 n2 = chi_token b a nb na n2 n1"
  by (simp add: chi_token_def chi_enum_sym[of a b] chi_denom_sym[of a b])

lemma func_sym:
  assumes "length a = length b"
  shows "func ''chi_square'' a b na nb n1 n2 = func ''chi_square'' b a nb na n2 n1"
  using assms
  by (simp add: func_def chi_square_def chi_token_sym[of "a ! _" "b ! _"])

lemma addup_loop_cong:
  "(\<And>i. i \<in> set js \<Longrightarrow> f i = g i) \<Longrightarrow> addup_loop f d js acc = addup_loop g d js acc"
  by (induction js arbitrary: acc) (auto split: sum.splits)

lemma func_error: "func m a b na nb n1 n2 = Inl e \<Longrightarrow> e = ZeroDivisionError"
  by (auto simp: func_def mutual_information_def chi_square_def split: if_splits)

lemma addup_loop_error:
  "(\<And>i e. f i = Inl e \<Longrightarrow> e = ZeroDivisionError) \<Longrightarrow> addup_loop f d js acc = Inl e
     \<Longrightarrow> e = ZeroDivisionError"
  by (induction js arbitrary: acc) (auto split: sum.splits)

lemma py_recip_error: "py_recip n = Inl e \<Longrightarrow> e = ZeroDivisionError"
  by (auto simp: py_recip_def split: if_splits)

lemma leaveout_result_sym:
  assumes "\<And>e. x = Inl e \<Longrightarrow> e = ZeroDivisionError"
      and "\<And>e. y = Inl e \<Longrightarrow> e = ZeroDivisionError"
  shows "leaveout_result x y n1 n2 = leaveout_result y x n2 n1"
  using assms
  by (cases x; cases y) (auto simp: leaveout_result_def py_recip_def fadd_commute)

lemma no_leaveout_result_sym:
  assumes "\<And>e. s = Inl e \<Longrightarrow> e = ZeroDivisionError"
  shows "no_leaveout_result s d1 d2 n1 n2 = no_leaveout_result s d2 d1 n2 n1"
  using assms
  by (cases s) (auto simp: no_leaveout_result_def py_recip_def fadd_commute)

lemma length_leaveout_t: "length (leaveout_t C t i) = length t"
  by (simp add: leaveout_t_def Let_def length_fold_sub)

lemma token_scores_leaveout_mirror:
  assumes "measure' = ''chi_square''" and "length a = length b"
  shows "token_scores_dem_leaveout measure' C q a b nb n1 n2 i =
         token_scores_rep_leaveout measure' C q' b a nb n2 n1 i"
  using assms
  by (simp add: token_scores_dem_leaveout_def token_scores_rep_leaveout_def Let_def
      func_sym[of "leaveout_t C a i" b] length_leaveout_t)

lemma token_scores_dem_leaveout_error:
  "measure' \<noteq> ''posterior'' \<Longrightarrow> token_scores_dem_leaveout measure' C q a b nb n1 n2 i = Inl e
     \<Longrightarrow> e = ZeroDivisionError"
  by (auto simp: token_scores_dem_leaveout_def Let_def dest: func_error)

lemma token_scores_rep_leaveout_error:
  "measure' \<noteq> ''posterior'' \<Longrightarrow> token_scores_rep_leaveout measure' C q a b nb n1 n2 i = Inl e
     \<Longrightarrow> e = ZeroDivisionError"
  by (auto simp: token_scores_rep_leaveout_def Let_def dest: func_error)

lemma get_party_q_None:
  "get_party_q C None = Inr (vec_div (sum_axis0 C) (wrap64 (sum_list (sum_axis0 C))))"
  by (simp add: get_party_q_def Let_def)

lemma calculate_polarization_leaveout_eq:
  assumes "measure' = ''mutual_information'' \<or> measure' = ''chi_square''"
      and "\<not> (\<exists>s \<in> set (sum_axis1 A). s = 0)" and "\<not> (\<exists>s \<in> set (sum_axis1 B). s = 0)"
  shows "calculate_polarization A B measure' True =
    leaveout_result
      (addup_loop (token_scores_dem_leaveout measure' A (vec_div (sum_axis0 B) (wrap64 (sum_list (sum_axis0 B))))
          (get_token_user_counts A) (get_token_user_counts B)
          (not_t (int (nrows B)) (get_token_user_counts B)) (int (nrows A) - 1) (nrows B))
        (user_distr A) [0..<nrows A] (Fin 0))
      (addup_loop (token_scores_rep_leaveout measure' B (vec_div (sum_axis0 A) (wrap64 (sum_list (sum_axis0 A))))
          (get_token_user_counts A) (get_token_user_counts B)
          (not_t (int (nrows A)) (get_token_user_counts A)) (nrows A) (int (nrows B) - 1))
        (user_distr B) [0..<nrows B] (Fin 0))
      (nrows A) (nrows B)"
  using assms
  by (auto simp: calculate_polarization_def Let_def get_party_q_None leaveout_result_def
      split: sum.splits)

lemma calculate_polarization_no_leaveout_eq:
  assumes "measure' = ''mutual_information'' \<or> measure' = ''chi_square''"
      and "\<not> (\<exists>s \<in> set (sum_axis1 A). s = 0)" and "\<not> (\<exists>s \<in> set (sum_axis1 B). s = 0)"
  shows "calculate_polarization A B measure' False =
    no_leaveout_result
      (func measure' (get_token_user_counts A) (get_token_user_counts B)
         (not_t (int (nrows A)) (get_token_user_counts A))
         (not_t (int (nrows B)) (get_token_user_counts B)) (int (nrows A)) (int (nrows B)))
      (user_distr A) (user_distr B) (nrows A) (nrows B)"
  using assms
  by (auto simp: calculate_polarization_def Let_def get_party_q_None no_leaveout_result_def
      token_scores_no_leaveout_def split: sum.splits)

lemma length_get_token_user_counts: "length (get_token_user_counts C) = ncols C"
  by (simp add: get_token_user_counts_eq)

lemma calculate_polarization_assert:
  assumes "(\<exists>s \<in> set (sum_axis1 A). s = 0) \<or> (\<exists>s \<in> set (sum_axis1 B). s = 0)"
  shows "calculate_polarization A B measure' leaveout = Inl AssertionError"
  using assms by (auto simp: calculate_polarization_def Let_def)

lemma calculate_polarization_swap_value:
  assumes chi: "measure' = ''chi_square''"
      and c: "ncols A = ncols B"
  shows "calculate_polarization A B measure' leaveout = calculate_polarization B A measure' leaveout"
proof (cases "(\<exists>s \<in> set (sum_axis1 A). s = 0) \<or> (\<exists>s \<in> set (sum_axis1 B). s = 0)")
  case True
  then have "(\<exists>s \<in> set (sum_axis1 B). s = 0) \<or> (\<exists>s \<in> set (sum_axis1 A). s = 0)" by blast
  then show ?thesis
    using True by (simp add: calculate_polarization_assert)
next
  case False
  then have a: "\<not> (\<exists>s \<in> set (sum_axis1 A). s = 0)" and b: "\<not> (\<exists>s \<in> set (sum_axis1 B). s = 0)"
    by blast+
  have m: "measure' = ''mutual_information'' \<or> measure' = ''chi_square''" using chi by simp
  have np: "measure' \<noteq> ''posterior''" using chi by auto
  have len: "length (get_token_user_counts A) = length (get_token_user_counts B)"
    using c by (simp add: length_get_token_user_counts)
  show ?thesis
  proof (cases leaveout)
    case True
    let ?LA = "addup_loop (token_scores_dem_leaveout measure' A (vec_div (sum_axis0 B) (wrap64 (sum_list (sum_axis0 B))))
          (get_token_user_counts A) (get_token_user_counts B)
          (not_t (int (nrows B)) (get_token_user_counts B)) (int (nrows A) - 1) (nrows B))
        (user_distr A) [0..<nrows A] (Fin 0)"
    let ?LB = "addup_loop (token_scores_rep_leaveout measure' B (vec_div (sum_axis0 A) (wrap64 (sum_list (sum_axis0 A))))
          (get_token_user_counts A) (get_token_user_counts B)
          (not_t (int (nrows A)) (get_token_user_counts A)) (nrows A) (int (nrows B) - 1))
        (user_distr B) [0..<nrows B] (Fin 0)"
    let ?LB' = "addup_loop (token_scores_dem_leaveout measure' B (vec_div (sum_axis0 A) (wrap64 (sum_list (sum_axis0 A))))
          (get_token_user_counts B) (get_token_user_counts A)
          (not_t (int (nrows A)) (get_token_user_counts A)) (int (nrows B) - 1) (nrows A))
        (user_distr B) [0..<nrows B] (Fin 0)"
    let ?LA' = "addup_loop (token_scores_rep_leaveout measure' A (vec_div (sum_axis0 B) (wrap64 (sum_list (sum_axis0 B))))
          (get_token_user_counts B) (get_token_user_counts A)
          (not_t (int (nrows B)) (get_token_user_counts B)) (nrows B) (int (nrows A) - 1))
        (user_distr A) [0..<nrows A] (Fin 0)"
    have l: "calculate_polarization A B measure' True = leaveout_result ?LA ?LB (nrows A) (nrows B)"
      by (rule calculate_polarization_leaveout_eq[OF m a b])
    have r: "calculate_polarization B A measure' True = leaveout_result ?LB' ?LA' (nrows B) (nrows A)"
      by (rule calculate_polarization_leaveout_eq[OF m b a])
    have ea: "?LA' = ?LA"
      by (rule addup_loop_cong) (rule token_scores_leaveout_mirror[OF chi len, symmetric])
    have eb: "?LB' = ?LB"
      by (rule addup_loop_cong) (rule token_scores_leaveout_mirror[OF chi len[symmetric]])
    have za: "e = ZeroDivisionError" if "?LA = Inl e" for e
      using that token_scores_dem_leaveout_error[OF np] by (rule addup_loop_error[rotated])
    have zb: "e = ZeroDivisionError" if "?LB = Inl e" for e
      using that token_scores_rep_leaveout_error[OF np] by (rule addup_loop_error[rotated])
    have "leaveout_result ?LA ?LB (nrows A) (nrows B) = leaveout_result ?LB ?LA (nrows B) (nrows A)"
      by (rule leaveout_result_sym[OF za zb])
    then have "calculate_polarization A B measure' True = calculate_polarization B A measure' True"
      by (simp only: l r ea eb)
    then show ?thesis using True by simp
  next
    case False
    let ?S = "func measure' (get_token_user_counts A) (get_token_user_counts B)
         (not_t (int (nrows A)) (get_token_user_counts A))
         (not_t (int (nrows B)) (get_token_user_counts B)) (int (nrows A)) (int (nrows B))"
    let ?S' = "func measure' (get_token_user_counts B) (get_token_user_counts A)
         (not_t (int (nrows B)) (get_token_user_counts B))
         (not_t (int (nrows A)) (get_token_user_counts A)) (int (nrows B)) (int (nrows A))"
    have l: "calculate_polarization A B measure' False =
        no_leaveout_result ?S (user_distr A) (user_distr B) (nrows A) (nrows B)"
      by (rule calculate_polarization_no_leaveout_eq[OF m a b])
    have r: "calculate_polarization B A measure' False =
        no_leaveout_result ?S' (user_distr B) (user_distr A) (nrows B) (nrows A)"
      by (rule calculate_polarization_no_leaveout_eq[OF m b a])
    have s: "?S' = ?S"
      unfolding chi by (rule func_sym[OF len[symmetric]])
    have z: "e = ZeroDivisionError" if "?S = Inl e" for e
      using that by (rule func_error)
    have "no_leaveout_result ?S (user_distr A) (user_distr B) (nrows A) (nrows B) =
        no_leaveout_result ?S (user_distr B) (user_distr A) (nrows B) (nrows A)"
      by (rule no_leaveout_result_sym[OF z])
    then have "calculate_polarization A B measure' False = calculate_polarization B A measure' False"
      by (simp only: l r s)
    then show ?thesis using False by simp
  qed
qed

lemma no_leaveout_shared:
  assumes "measure' \<noteq> ''posterior''"
  shows "(case token_scores_no_leaveout measure' dem_q rep_q a b na nb n1 n2 of
            Inl e \<Rightarrow> True
          | Inr (token_scores_dem, token_scores_rep) \<Rightarrow> token_scores_dem = token_scores_rep)"
  using assms by (simp add: token_scores_no_leaveout_def split: sum.splits)

lemma no_leaveout_sym:
  assumes "measure' = ''chi_square''" and "length a = length b"
  shows "token_scores_no_leaveout measure' dem_q rep_q a b na nb n1 n2 =
         token_scores_no_leaveout measure' rep_q dem_q b a nb na n2 n1"
  using assms(1) by (simp add: token_scores_no_leaveout_def func_sym[OF assms(2)])

text \<open>
  Claim C7, as amended. For two matrices over one vocabulary with \<open>n1 + n2 + 4 \<le> 8192\<close>
  documents: under \<^verbatim>\<open>chi_square\<close>, for either value of \<^verbatim>\<open>leaveout\<close>, the result of
  \<^verbatim>\<open>calculate_polarization\<close> is the same when the two groups are exchanged (a raised exception
  included). Without leave-out, under \<^verbatim>\<open>mutual_information\<close> as under \<^verbatim>\<open>chi_square\<close>, the two
  groups use one and the same score vector; under \<^verbatim>\<open>chi_square\<close> it is also the vector of the
  exchanged call. With leave-out every document has a score vector of its own; under
  \<^verbatim>\<open>chi_square\<close> the vector of document \<open>i\<close> of the first group is the vector that the
  exchanged call uses for document \<open>i\<close> of its second group.
\<close>

theorem calculate_polarization_swap_chi_square:
  assumes "ncols A = ncols B"
      and "nrows A + nrows B + 4 \<le> 8192"
      and "measure' = ''mutual_information'' \<or> measure' = ''chi_square''"
  shows "calculate_polarization A B ''chi_square'' leaveout =
         calculate_polarization B A ''chi_square'' leaveout
     \<and> (case token_scores_no_leaveout measure' dem_q rep_q
               (get_token_user_counts A) (get_token_user_counts B)
               (not_t (int (nrows A)) (get_token_user_counts A))
               (not_t (int (nrows B)) (get_token_user_counts B)) (nrows A) (nrows B) of
           Inl e \<Rightarrow> True
         | Inr (token_scores_dem, token_scores_rep) \<Rightarrow> token_scores_dem = token_scores_rep)
     \<and> token_scores_no_leaveout ''chi_square'' dem_q rep_q
           (get_token_user_counts A) (get_token_user_counts B)
           (not_t (int (nrows A)) (get_token_user_counts A))
           (not_t (int (nrows B)) (get_token_user_counts B)) (nrows A) (nrows B) =
         token_scores_no_leaveout ''chi_square'' rep_q dem_q
           (get_token_user_counts B) (get_token_user_counts A)
           (not_t (int (nrows B)) (get_token_user_counts B))
           (not_t (int (nrows A)) (get_token_user_counts A)) (nrows B) (nrows A)
     \<and> token_scores_dem_leaveout ''chi_square'' A rep_q
           (get_token_user_counts A) (get_token_user_counts B)
           (not_t (int (nrows B)) (get_token_user_counts B)) (int (nrows A) - 1) (nrows B) i =
         token_scores_rep_leaveout ''chi_square'' A rep_q
           (get_token_user_counts B) (get_token_user_counts A)
           (not_t (int (nrows B)) (get_token_user_counts B)) (nrows B) (int (nrows A) - 1) i"
proof -
  have np: "measure' \<noteq> ''posterior''" using assms(3) by auto
  have chi: "''chi_square'' = ''chi_square''" by simp
  have len: "length (get_token_user_counts A) = length (get_token_user_counts B)"
    using assms(1) by (simp add: length_get_token_user_counts)
  show ?thesis
  proof (intro conjI)
    show "calculate_polarization A B ''chi_square'' leaveout =
          calculate_polarization B A ''chi_square'' leaveout"
      by (rule calculate_polarization_swap_value[OF chi assms(1)])
  qed (rule no_leaveout_shared[OF np] no_leaveout_sym[OF chi len]
        token_scores_leaveout_mirror[OF chi len])+
qed

lemma tuc_two: "get_token_user_counts \<lparr>ncols = 1, rows = [[1], [1]]\<rparr> = [Fin 3]"
  by (simp add: get_token_user_counts_eq find_cols_def row_find_def)

lemma tuc_three: "get_token_user_counts \<lparr>ncols = 1, rows = [[1], [1], [1]]\<rparr> = [Fin 4]"
  by (simp add: get_token_user_counts_eq find_cols_def row_find_def)

lemmas chi_eval = func_def chi_square_def chi_token_def chi_enum_def chi_denom_def not_t_def
  leaveout_t_def row_find_def Let_def

lemma dem_scores_example:
  assumes "i < 2"
  shows "token_scores_dem_leaveout ''chi_square'' \<lparr>ncols = 1, rows = [[1], [1]]\<rparr> q
       [Fin 3] [Fin 4] (not_t 3 [Fin 4]) 1 3 i = Inr [Fin (4 / 45)]"
  using assms by (cases i) (simp_all add: token_scores_dem_leaveout_def chi_eval)

lemma rep_scores_example:
  assumes "i < 3"
  shows "token_scores_rep_leaveout ''chi_square'' \<lparr>ncols = 1, rows = [[1], [1], [1]]\<rparr> q
       [Fin 3] [Fin 4] (not_t 2 [Fin 3]) 2 2 i = Inr [Fin 0]"
proof -
  have "i = 0 \<or> i = 1 \<or> i = 2" using assms by linarith
  then show ?thesis
    by (auto simp: token_scores_rep_leaveout_def chi_eval)
qed

lemma polarization_example:
  "calculate_polarization \<lparr>ncols = 1, rows = [[1], [1]]\<rparr> \<lparr>ncols = 1, rows = [[1], [1], [1]]\<rparr>
       ''chi_square'' True = Inr ([], Some (Fin (2 / 45)))"
proof -
  note d = dem_scores_example and r = rep_scores_example
  have la: "addup_loop (\<lambda>i. token_scores_dem_leaveout ''chi_square'' \<lparr>ncols = 1, rows = [[1], [1]]\<rparr> q
       [Fin 3] [Fin 4] (not_t 3 [Fin 4]) 1 3 i) [[Fin 1], [Fin 1]] [0, 1] (Fin 0) = Inr (Fin (8 / 45))" for q
    by (simp add: d sparse_dot_def fsum_def del: One_nat_def)
  have lb: "addup_loop (\<lambda>i. token_scores_rep_leaveout ''chi_square'' \<lparr>ncols = 1, rows = [[1], [1], [1]]\<rparr> q
       [Fin 3] [Fin 4] (not_t 2 [Fin 3]) 2 2 i) [[Fin 1], [Fin 1], [Fin 1]] [0, 1, 2] (Fin 0) = Inr (Fin 0)" for q
    by (simp add: r sparse_dot_def fsum_def del: One_nat_def)
  have u2: "[0..<2] = [0, 1]" by (simp add: upt_rec)
  have u3: "[0..<3] = [0, 1, 2]" by (simp add: upt_rec)
  have aA: "\<not> (\<exists>s \<in> set (sum_axis1 \<lparr>ncols = 1, rows = [[1], [1]]\<rparr>). s = 0)"
    by (simp add: sum_axis1_def wrap64_def)
  have aB: "\<not> (\<exists>s \<in> set (sum_axis1 \<lparr>ncols = 1, rows = [[1], [1], [1]]\<rparr>). s = 0)"
    by (simp add: sum_axis1_def wrap64_def)
  have nA: "nrows \<lparr>ncols = 1, rows = [[1], [1]]\<rparr> = 2"
    by (simp add: nrows_def)
  have nB: "nrows \<lparr>ncols = 1, rows = [[1], [1], [1]]\<rparr> = 3"
    by (simp add: nrows_def)
  have dA: "user_distr \<lparr>ncols = 1, rows = [[1], [1]]\<rparr> = [[Fin 1], [Fin 1]]"
    by (simp add: user_distr_def wrap64_def)
  have dB: "user_distr \<lparr>ncols = 1, rows = [[1], [1], [1]]\<rparr> = [[Fin 1], [Fin 1], [Fin 1]]"
    by (simp add: user_distr_def wrap64_def)
  have iA: "(2::int) - 1 = 1" "(3::int) - 1 = 2" "int 2 = 2" "int 3 = 3"
    by simp_all
  have m: "''chi_square'' = ''mutual_information'' \<or> ''chi_square'' = ''chi_square''"
    by simp
  have "calculate_polarization \<lparr>ncols = 1, rows = [[1], [1]]\<rparr> \<lparr>ncols = 1, rows = [[1], [1], [1]]\<rparr>
       ''chi_square'' True = leaveout_result (Inr (Fin (8 / 45))) (Inr (Fin 0)) 2 3"
    using calculate_polarization_leaveout_eq[OF m aA aB]
    by (simp only: nA nB tuc_two tuc_three dA dB u2 u3 iA la lb)
  then show "calculate_polarization \<lparr>ncols = 1, rows = [[1], [1]]\<rparr> \<lparr>ncols = 1, rows = [[1], [1], [1]]\<rparr>
       ''chi_square'' True = Inr ([], Some (Fin (2 / 45)))"
    by (simp add: leaveout_result_def py_recip_def)
qed

text \<open>
  Claim C7, as stated, fails in its second part when \<^verbatim>\<open>leaveout\<close> is true: with two documents
  \<open>[1]\<close> in group 1, three documents \<open>[1]\<close> in group 2 and \<^verbatim>\<open>chi_square\<close>, the score vector
  used for document 0 of group 1 is \<open>[4/45]\<close> and the one used for document 0 of group 2 is
  \<open>[0]\<close>; the polarization is \<open>2/45\<close>.
\<close>

theorem leaveout_scores_differ:
  "token_scores_dem_leaveout ''chi_square'' \<lparr>ncols = 1, rows = [[1], [1]]\<rparr> [Fin 1]
       (get_token_user_counts \<lparr>ncols = 1, rows = [[1], [1]]\<rparr>)
       (get_token_user_counts \<lparr>ncols = 1, rows = [[1], [1], [1]]\<rparr>)
       (not_t 3 (get_token_user_counts \<lparr>ncols = 1, rows = [[1], [1], [1]]\<rparr>)) 1 3 0
     = Inr [Fin (4 / 45)]
   \<and> token_scores_rep_leaveout ''chi_square'' \<lparr>ncols = 1, rows = [[1], [1], [1]]\<rparr> [Fin 1]
       (get_token_user_counts \<lparr>ncols = 1, rows = [[1], [1]]\<rparr>)
       (get_token_user_counts \<lparr>ncols = 1, rows = [[1], [1], [1]]\<rparr>)
       (not_t 2 (get_token_user_counts \<lparr>ncols = 1, rows = [[1], [1]]\<rparr>)) 2 2 0
     = Inr [Fin 0]
   \<and> calculate_polarization \<lparr>ncols = 1, rows = [[1], [1]]\<rparr> \<lparr>ncols = 1, rows = [[1], [1], [1]]\<rparr>
       ''chi_square'' True = Inr ([], Some (Fin (2 / 45)))"
  using dem_scores_example[of 0 "[Fin 1]"] rep_scores_example[of 0 "[Fin 1]"] polarization_example
  unfolding tuc_two tuc_three by simp

theorem calculate_polarization_swap_chi_square_witness:
  "ncols \<lparr>ncols = 1, rows = [[1], [1]]\<rparr> = ncols \<lparr>ncols = 1, rows = [[1], [1], [1]]\<rparr>
   \<and> nrows \<lparr>ncols = 1, rows = [[1], [1]]\<rparr> + nrows \<lparr>ncols = 1, rows = [[1], [1], [1]]\<rparr> + 4 \<le> 8192
   \<and> (''chi_square'' = ''mutual_information'' \<or> ''chi_square'' = ''chi_square'')
   \<and> calculate_polarization \<lparr>ncols = 1, rows = [[1], [1]]\<rparr> \<lparr>ncols = 1, rows = [[1], [1], [1]]\<rparr>
        ''chi_square'' True =
      calculate_polarization \<lparr>ncols = 1, rows = [[1], [1], [1]]\<rparr> \<lparr>ncols = 1, rows = [[1], [1]]\<rparr>
        ''chi_square'' True
   \<and> calculate_polarization \<lparr>ncols = 1, rows = [[1], [1], [1]]\<rparr> \<lparr>ncols = 1, rows = [[1], [1]]\<rparr>
        ''chi_square'' True = Inr ([], Some (Fin (2 / 45)))"
proof -
  have h1: "ncols \<lparr>ncols = 1, rows = [[1], [1]]\<rparr> = ncols \<lparr>ncols = 1, rows = [[1], [1], [1]]\<rparr>"
    by simp
  have h2: "nrows \<lparr>ncols = 1, rows = [[1], [1]]\<rparr> + nrows \<lparr>ncols = 1, rows = [[1], [1], [1]]\<rparr> + 4 \<le> 8192"
    by (simp add: nrows_def)
  have h3: "''chi_square'' = ''mutual_information'' \<or> ''chi_square'' = ''chi_square''"
    by simp
  have s: "calculate_polarization \<lparr>ncols = 1, rows = [[1], [1]]\<rparr> \<lparr>ncols = 1, rows = [[1], [1], [1]]\<rparr>
        ''chi_square'' True =
      calculate_polarization \<lparr>ncols = 1, rows = [[1], [1], [1]]\<rparr> \<lparr>ncols = 1, rows = [[1], [1]]\<rparr>
        ''chi_square'' True"
    using calculate_polarization_swap_chi_square[OF h1 h2 h3, of True] by (rule conjunct1)
  show ?thesis
    using h1 h2 h3 s polarization_example by (simp only: simp_thms)
qed

end
